theory Spec2Isabelle
  imports Complex_Main "HOL-Library.Sublist"
begin

section \<open>Python text primitives\<close>

text \<open>
  Python \<open>str\<close> values are modelled as \<open>string\<close>, a list of 8-bit characters; a
  character outside ASCII stands as its UTF-8 bytes. The whitespace of \<open>str.split()\<close>,
  \<open>str.strip()\<close> and of the regular expression class \<open>\s\<close> is the ASCII part of
  \<open>str.isspace\<close>: the codes 9 to 13, 28 to 31 and 32. The digits of \<open>\d\<close> are
  \<open>0\<close> to \<open>9\<close>, and \<open>str.lower()\<close> maps \<open>A\<close> to \<open>Z\<close> onto \<open>a\<close> to \<open>z\<close>
  and leaves every other character alone.
\<close>

definition is_space :: "char \<Rightarrow> bool" where
  "is_space c = (c = CHR 0x09 \<or> c = CHR 0x0A \<or> c = CHR 0x0B \<or> c = CHR 0x0C \<or> c = CHR 0x0D \<or>
                 c = CHR 0x1C \<or> c = CHR 0x1D \<or> c = CHR 0x1E \<or> c = CHR 0x1F \<or> c = CHR 0x20)"

definition is_digit :: "char \<Rightarrow> bool" where
  "is_digit c = (c = CHR ''0'' \<or> c = CHR ''1'' \<or> c = CHR ''2'' \<or> c = CHR ''3'' \<or> c = CHR ''4'' \<or>
                 c = CHR ''5'' \<or> c = CHR ''6'' \<or> c = CHR ''7'' \<or> c = CHR ''8'' \<or> c = CHR ''9'')"

definition lower_char :: "char \<Rightarrow> char" where
  "lower_char c =
     (case map_of (zip ''ABCDEFGHIJKLMNOPQRSTUVWXYZ'' ''abcdefghijklmnopqrstuvwxyz'') c of
        Some l \<Rightarrow> l
      | None \<Rightarrow> c)"

text \<open>\<open>s.lower()\<close>\<close>

definition lower :: "string \<Rightarrow> string" where
  "lower s = map lower_char s"

text \<open>
  \<open>s.split()\<close>: the maximal runs of characters that are not whitespace, in order. The
  first argument of \<open>split_acc\<close> is the word being read, reversed.
\<close>

fun split_acc :: "string \<Rightarrow> string \<Rightarrow> string list" where
  "split_acc w [] = (if w = [] then [] else [rev w])"
| "split_acc w (c # cs) =
     (if is_space c then (if w = [] then split_acc [] cs else rev w # split_acc [] cs)
      else split_acc (c # w) cs)"

definition py_split :: "string \<Rightarrow> string list" where
  "py_split s = split_acc [] s"

text \<open>A word of \<open>s.split()\<close>: not empty, and with no whitespace in it.\<close>

definition is_word :: "string \<Rightarrow> bool" where
  "is_word x = (x \<noteq> [] \<and> list_all (\<lambda>c. \<not> is_space c) x)"

text \<open>\<open>s.strip()\<close>\<close>

definition py_strip :: "string \<Rightarrow> string" where
  "py_strip s = rev (dropWhile is_space (rev (dropWhile is_space s)))"

text \<open>\<open>s.split(c)\<close> for a separator of one character: never an empty list.\<close>

fun split_on :: "char \<Rightarrow> string \<Rightarrow> string list" where
  "split_on sep [] = [[]]"
| "split_on sep (c # cs) =
     (if c = sep then [] # split_on sep cs
      else (case split_on sep cs of [] \<Rightarrow> [[c]] | l # ls \<Rightarrow> (c # l) # ls))"

text \<open>\<open>sep.join(xs)\<close>\<close>

fun join :: "string \<Rightarrow> string list \<Rightarrow> string" where
  "join sep [] = []"
| "join sep [x] = x"
| "join sep (x # y # ys) = x @ sep @ join sep (y # ys)"

text \<open>\<open>a in b\<close> on strings is \<open>sublist a b\<close>; \<open>s.count(c)\<close> for one character is
  \<open>count_list s c\<close>.\<close>

section \<open>Complexity estimator (complexity.py)\<close>

text \<open>
  Python computes the factors in binary floating point; the model computes them in exact
  rational arithmetic (\<open>0.2\<close> is \<open>1/5\<close>, \<open>1.8\<close> is \<open>9/5\<close>, \<open>1.3\<close> is \<open>13/10\<close>).
  \<open>round\<close> on a float rounds to the nearest integer, a tie to the even one.
\<close>

definition py_round :: "rat \<Rightarrow> int" where
  "py_round x =
     (let f = \<lfloor>x\<rfloor>; d = x - of_int f
      in if d < 1 / 2 then f else if 1 / 2 < d then f + 1 else if even f then f else f + 1)"

definition domain_base_limits :: "(string \<times> int) list" where
  "domain_base_limits =
     [(''math'', 6), (''logic'', 5), (''common_sense'', 4), (''physics'', 7), (''chemistry'', 6),
      (''biology'', 5), (''code'', 8), (''puzzle'', 5), (''general'', 5)]"

definition complexity_indicators :: "(string \<times> string list) list" where
  "complexity_indicators =
     [(''math'',
        [''integral'', ''derivative'', ''equation'', ''proof'', ''theorem'', ''calculus'',
         ''matrix'', ''vector'', ''linear algebra'', ''probability'', ''statistics'',
         ''geometric series'', ''differential'', ''polynomial'', ''factorial'']),
      (''logic'',
        [''if and only if'', ''necessary condition'', ''sufficient'', ''contradiction'',
         ''syllogism'', ''premise'', ''fallacy'', ''converse'', ''counterexample'',
         ''logical equivalence'', ''negation'', ''disjunction'', ''conjunction'']),
      (''code'',
        [''recursion'', ''algorithm'', ''complexity'', ''optimization'', ''function'',
         ''class'', ''object'', ''inheritance'', ''polymorphism'', ''data structure'',
         ''binary tree'', ''hash table'', ''graph'', ''dynamic programming'']),
      (''physics'',
        [''quantum'', ''relativity'', ''momentum'', ''force'', ''acceleration'',
         ''energy'', ''thermodynamics'', ''electric field'', ''magnetic field'',
         ''potential'', ''entropy'', ''wavelength'', ''frequency'']),
      (''chemistry'',
        [''reaction'', ''molecule'', ''compound'', ''element'', ''equilibrium'',
         ''acid'', ''base'', ''oxidation'', ''reduction'', ''catalyst'', ''isomer'']),
      (''biology'',
        [''gene'', ''protein'', ''enzyme'', ''cell'', ''tissue'', ''organ'', ''system'',
         ''metabolism'', ''photosynthesis'', ''respiration'', ''homeostasis'']),
      (''puzzle'',
        [''constraint'', ''sequence'', ''pattern'', ''rules'', ''probability'',
         ''combination'', ''permutation'', ''optimal'', ''strategy''])]"

text \<open>\<open>self.domain_base_limits.get(domain.lower(), 5)\<close>\<close>

definition base_limit_of :: "string \<Rightarrow> int" where
  "base_limit_of domain =
     (case map_of domain_base_limits (lower domain) of Some b \<Rightarrow> b | None \<Rightarrow> 5)"

text \<open>\<open>self.complexity_indicators.get(domain.lower(), [])\<close>\<close>

definition indicators_of :: "string \<Rightarrow> string list" where
  "indicators_of domain =
     (case map_of complexity_indicators (lower domain) of Some l \<Rightarrow> l | None \<Rightarrow> [])"

text \<open>\<open>[ind for ind in indicators if ind.lower() in problem.lower()]\<close>\<close>

definition found_indicators_of :: "string \<Rightarrow> string \<Rightarrow> string list" where
  "found_indicators_of problem domain =
     filter (\<lambda>ind. sublist (lower ind) (lower problem)) (indicators_of domain)"

text \<open>\<open>[s for s in problem.split(".") if s.strip()]\<close>\<close>

definition sentences_of :: "string \<Rightarrow> string list" where
  "sentences_of problem = filter (\<lambda>s. py_strip s \<noteq> []) (split_on CHR ''.'' problem)"

text \<open>The five factors, each written as its assignment in \<open>estimate_complexity\<close>.\<close>

definition length_factor_of :: "string \<Rightarrow> rat" where
  "length_factor_of problem = min (of_nat (length (py_split problem)) / 50) 2"

definition indicator_factor_of :: "string \<Rightarrow> string \<Rightarrow> rat" where
  "indicator_factor_of problem domain =
     min (1 + of_nat (length (found_indicators_of problem domain)) * (1 / 5)) (9 / 5)"

definition question_factor_of :: "string \<Rightarrow> rat" where
  "question_factor_of problem = 1 + of_nat (count_list problem CHR ''?'') * (1 / 5)"

definition words_per_sentence_of :: "string \<Rightarrow> rat" where
  "words_per_sentence_of problem =
     of_nat (length (py_split problem)) / of_nat (max (length (sentences_of problem)) 1)"

definition sentence_complexity_factor_of :: "string \<Rightarrow> rat" where
  "sentence_complexity_factor_of problem = min (words_per_sentence_of problem / 15) (3 / 2)"

definition domain_factor_of :: "string \<Rightarrow> string \<Rightarrow> rat" where
  "domain_factor_of problem domain =
     (if lower domain = ''math'' \<and>
         list_ex (\<lambda>term. sublist term (lower problem)) [''prove'', ''proof'', ''theorem'']
      then 13 / 10
      else if lower domain = ''code'' \<and>
         list_ex (\<lambda>term. sublist term (lower problem)) [''implement'', ''function'', ''algorithm'']
      then 6 / 5
      else 1)"

text \<open>\<open>max(length_factor, indicator_factor, question_factor, sentence_complexity_factor,
  domain_factor)\<close>\<close>

definition impact_factor_of :: "string \<Rightarrow> string \<Rightarrow> rat" where
  "impact_factor_of problem domain =
     max (length_factor_of problem)
       (max (indicator_factor_of problem domain)
         (max (question_factor_of problem)
           (max (sentence_complexity_factor_of problem) (domain_factor_of problem domain))))"

definition estimate_complexity :: "string \<Rightarrow> string \<Rightarrow> int" where
  "estimate_complexity problem domain =
     (let base_limit = base_limit_of domain;
          impact_factor = impact_factor_of problem domain;
          adjusted_limit = py_round (of_int base_limit * impact_factor)
      in max 3 (min adjusted_limit 10))"

text \<open>The dictionary \<open>analyze_problem\<close> returns.\<close>

record analysis =
  a_domain :: string
  a_base_limit :: int
  a_word_count :: nat
  a_length_factor :: rat
  a_indicator_count :: nat
  a_found_indicators :: "string list"
  a_indicator_factor :: rat
  a_question_count :: nat
  a_question_factor :: rat
  a_sentence_count :: nat
  a_words_per_sentence :: rat
  a_sentence_complexity_factor :: rat
  a_estimated_complexity :: int

definition analyze_problem :: "string \<Rightarrow> string \<Rightarrow> analysis" where
  "analyze_problem problem domain =
     (let base_limit = base_limit_of domain;
          word_count = length (py_split problem);
          length_factor = min (of_nat word_count / 50) 2;
          found_indicators = found_indicators_of problem domain;
          indicator_count = length found_indicators;
          indicator_factor = min (1 + of_nat indicator_count * (1 / 5)) (9 / 5);
          question_count = count_list problem CHR ''?'';
          question_factor = 1 + of_nat question_count * (1 / 5);
          sentences = sentences_of problem;
          words_per_sentence = of_nat word_count / of_nat (max (length sentences) 1);
          sentence_complexity_factor = min (words_per_sentence / 15) (3 / 2)
      in \<lparr> a_domain = domain,
           a_base_limit = base_limit,
           a_word_count = word_count,
           a_length_factor = length_factor,
           a_indicator_count = indicator_count,
           a_found_indicators = found_indicators,
           a_indicator_factor = indicator_factor,
           a_question_count = question_count,
           a_question_factor = question_factor,
           a_sentence_count = length sentences,
           a_words_per_sentence = words_per_sentence,
           a_sentence_complexity_factor = sentence_complexity_factor,
           a_estimated_complexity =
             max 3 (min (py_round (of_int base_limit *
               max length_factor (max indicator_factor
                 (max question_factor sentence_complexity_factor)))) 10) \<rparr>)"

section \<open>Format enforcer (format.py)\<close>

subsection \<open>The regular expressions\<close>

text \<open>
  Each alternative of the two patterns is a function from the text at the current
  position to the length of its match there, if it matches. The quantifiers are greedy,
  and in every alternative the character that has to follow a run is outside the run's
  class, so the longest run is the only candidate and no backtracking is lost.
\<close>

definition newline :: char where
  "newline = CHR 0x0A"

text \<open>The bullet U+2022, in UTF-8.\<close>

definition bullet :: string where
  "bullet = [CHR 0xE2, CHR 0x80, CHR 0xA2]"

text \<open>\<open>\d+\.\s*\<close>\<close>

definition m_number :: "string \<Rightarrow> nat option" where
  "m_number s =
     (let ds = takeWhile is_digit s
      in case dropWhile is_digit s of
           [] \<Rightarrow> None
         | c # r \<Rightarrow>
             if ds \<noteq> [] \<and> c = CHR ''.''
             then Some (length ds + 1 + length (takeWhile is_space r))
             else None)"

text \<open>\<open>Step\s+\d+:\<close>\<close>

definition m_step :: "string \<Rightarrow> nat option" where
  "m_step s =
     (if take 4 s = ''Step'' then
        (let ws = takeWhile is_space (drop 4 s);
             r = dropWhile is_space (drop 4 s);
             ds = takeWhile is_digit r
         in if ws \<noteq> [] \<and> ds \<noteq> [] \<and> take 1 (dropWhile is_digit r) = '':''
            then Some (4 + length ws + length ds + 1)
            else None)
      else None)"

text \<open>A literal followed by \<open>\s+\<close>: the alternatives \<open>\n-\s+\<close>, \<open>\n\*\s+\<close> and
  \<open>\<bullet>\s+\<close>.\<close>

definition m_lit_ws :: "string \<Rightarrow> string \<Rightarrow> nat option" where
  "m_lit_ws lit s =
     (let ws = takeWhile is_space (drop (length lit) s)
      in if take (length lit) s = lit \<and> ws \<noteq> [] then Some (length lit + length ws) else None)"

text \<open>\<open>\s*-\s+\<close> and \<open>\s*\*\s+\<close>, for the character given.\<close>

definition m_ws_sym :: "char \<Rightarrow> string \<Rightarrow> nat option" where
  "m_ws_sym ch s =
     (case dropWhile is_space s of
        [] \<Rightarrow> None
      | c # r \<Rightarrow>
          if c = ch \<and> takeWhile is_space r \<noteq> []
          then Some (length (takeWhile is_space s) + 1 + length (takeWhile is_space r))
          else None)"

text \<open>
  \<open>self.step_pattern\<close>, compiled with \<open>re.MULTILINE\<close>, at one position: \<open>bol\<close> says
  whether \<open>^\<close> holds there (the start of the text, or just after a newline).
\<close>

definition step_pattern_at :: "bool \<Rightarrow> string \<Rightarrow> bool" where
  "step_pattern_at bol s =
     (m_number s \<noteq> None \<or> m_step s \<noteq> None \<or>
      m_lit_ws [newline, CHR ''-''] s \<noteq> None \<or> m_lit_ws [newline, CHR ''*''] s \<noteq> None \<or>
      m_lit_ws bullet s \<noteq> None \<or>
      (bol \<and> m_ws_sym CHR ''-'' s \<noteq> None) \<or> (bol \<and> m_ws_sym CHR ''*'' s \<noteq> None))"

text \<open>\<open>self.step_pattern.search(reasoning)\<close>: a match at some position.\<close>

fun search_from :: "bool \<Rightarrow> string \<Rightarrow> bool" where
  "search_from bol [] = step_pattern_at bol []"
| "search_from bol (c # cs) = (step_pattern_at bol (c # cs) \<or> search_from (c = newline) cs)"

definition step_pattern_search :: "string \<Rightarrow> bool" where
  "step_pattern_search reasoning = search_from True reasoning"

text \<open>\<open>re.match(r'^\s*\d+\.', line)\<close>\<close>

definition m_ws_number_dot :: "string \<Rightarrow> bool" where
  "m_ws_number_dot line =
     (let r = dropWhile is_space line
      in takeWhile is_digit r \<noteq> [] \<and> take 1 (dropWhile is_digit r) = ''.'')"

text \<open>\<open>self.step_pattern.match(line) or re.match(r'^\s*\d+\.', line)\<close>\<close>

definition line_starts_step :: "string \<Rightarrow> bool" where
  "line_starts_step line = (step_pattern_at True line \<or> m_ws_number_dot line)"

text \<open>
  \<open>re.match(r'^(\d+\.\s*|Step\s+\d+:|\s*-\s+|\s*\*\s+|\<bullet>\s+)', step)\<close>: the first
  alternative that matches at the start of the step, as the length of \<open>match.group(0)\<close>.
\<close>

definition marker_match :: "string \<Rightarrow> nat option" where
  "marker_match step =
     (case m_number step of Some k \<Rightarrow> Some k | None \<Rightarrow>
      (case m_step step of Some k \<Rightarrow> Some k | None \<Rightarrow>
       (case m_ws_sym CHR ''-'' step of Some k \<Rightarrow> Some k | None \<Rightarrow>
        (case m_ws_sym CHR ''*'' step of Some k \<Rightarrow> Some k | None \<Rightarrow>
         m_lit_ws bullet step))))"

text \<open>\<open>marker = match.group(0) if match else ""\<close>\<close>

definition marker_of :: "string \<Rightarrow> string" where
  "marker_of step = (case marker_match step of Some k \<Rightarrow> take k step | None \<Rightarrow> [])"

text \<open>\<open>content = step[len(marker):].strip() if marker else step\<close>\<close>

definition content_of :: "string \<Rightarrow> string" where
  "content_of step =
     (let marker = marker_of step
      in if marker \<noteq> [] then py_strip (drop (length marker) step) else step)"

subsection \<open>Splitting into steps\<close>

text \<open>
  The loop over the lines of \<open>_split_into_steps\<close>, with its two variables \<open>parts\<close> and
  \<open>current_part\<close>; the value is \<open>parts\<close> after the last part has been added.
\<close>

fun steps_loop :: "string list \<Rightarrow> string list \<Rightarrow> string \<Rightarrow> string list" where
  "steps_loop [] parts current_part =
     (if current_part \<noteq> [] then parts @ [current_part] else parts)"
| "steps_loop (line # lines) parts current_part =
     (if line_starts_step line then
        steps_loop lines (if current_part \<noteq> [] then parts @ [current_part] else parts) line
      else
        steps_loop lines parts
          (if current_part \<noteq> [] then current_part @ [newline] @ line else line))"

definition split_into_steps :: "string \<Rightarrow> string list" where
  "split_into_steps reasoning =
     (if step_pattern_search reasoning then
        (let parts = steps_loop (split_on newline reasoning) [] []
         in if parts \<noteq> [] then parts else [reasoning])
      else map py_strip (filter (\<lambda>line. py_strip line \<noteq> []) (split_on newline reasoning)))"

subsection \<open>Enforcing the word limit\<close>

text \<open>\<open>xs[:n]\<close> for an integer \<open>n\<close>: a negative \<open>n\<close> counts from the end.\<close>

definition slice_to :: "int \<Rightarrow> 'a list \<Rightarrow> 'a list" where
  "slice_to n xs = (if 0 \<le> n then take (nat n) xs else take (length xs - nat (- n)) xs)"

definition enforce_step :: "string \<Rightarrow> int \<Rightarrow> string" where
  "enforce_step step max_words =
     (let words = py_split step
      in if int (length words) \<le> max_words then step
         else
           (let marker = marker_of step;
                content = (if marker \<noteq> [] then py_strip (drop (length marker) step) else step);
                content_words = py_split content;
                truncated = join '' '' (slice_to max_words content_words)
            in marker @ truncated))"

text \<open>The list \<open>enforced_steps\<close> that the loop of \<open>enforce_word_limit\<close> builds.\<close>

definition enforced_steps :: "string \<Rightarrow> int \<Rightarrow> string list" where
  "enforced_steps reasoning max_words_per_step =
     map (\<lambda>step. enforce_step step max_words_per_step) (split_into_steps reasoning)"

definition enforce_word_limit :: "string \<Rightarrow> int \<Rightarrow> string" where
  "enforce_word_limit reasoning max_words_per_step =
     join [newline] (enforced_steps reasoning max_words_per_step)"

subsection \<open>Adherence\<close>

record adherence =
  total_steps :: nat
  steps_within_limit :: nat
  average_words_per_step :: rat
  max_words_in_any_step :: nat
  adherence_rate :: rat
  step_counts :: "nat list"

text \<open>\<open>len(content.split())\<close> for one step of \<open>analyze_adherence\<close>.\<close>

definition step_count :: "string \<Rightarrow> nat" where
  "step_count step = length (py_split (content_of step))"

definition analyze_adherence :: "string \<Rightarrow> int \<Rightarrow> adherence" where
  "analyze_adherence reasoning max_words_per_step =
     (let steps = split_into_steps reasoning;
          counts = map step_count steps;
          ok_count = length (filter (\<lambda>count. int count \<le> max_words_per_step) counts)
      in \<lparr> total_steps = length steps,
           steps_within_limit = ok_count,
           average_words_per_step =
             (if steps \<noteq> [] then of_nat (sum_list counts) / of_nat (length steps) else 0),
           max_words_in_any_step = (if steps \<noteq> [] then Max (set counts) else 0),
           adherence_rate =
             (if steps \<noteq> [] then of_nat ok_count / of_nat (length steps) else 1),
           step_counts = counts \<rparr>)"

section \<open>Approach selector (reasoning.py)\<close>

text \<open>What the code raises, as values.\<close>

datatype error =
    ValueError string
  | KeyError string
  | TypeError string
  | CollaboratorError string

record preference =
  complexity_threshold :: int
  accuracy_threshold :: rat

text \<open>\<open>self.default_preferences\<close> as the constructor fills it.\<close>

definition default_preferences :: "string \<rightharpoonup> preference" where
  "default_preferences =
     [''math'' \<mapsto> \<lparr>complexity_threshold = 7, accuracy_threshold = 17 / 20\<rparr>,
      ''code'' \<mapsto> \<lparr>complexity_threshold = 8, accuracy_threshold = 9 / 10\<rparr>,
      ''physics'' \<mapsto> \<lparr>complexity_threshold = 7, accuracy_threshold = 17 / 20\<rparr>,
      ''chemistry'' \<mapsto> \<lparr>complexity_threshold = 7, accuracy_threshold = 17 / 20\<rparr>,
      ''biology'' \<mapsto> \<lparr>complexity_threshold = 6, accuracy_threshold = 17 / 20\<rparr>,
      ''logic'' \<mapsto> \<lparr>complexity_threshold = 6, accuracy_threshold = 9 / 10\<rparr>,
      ''puzzle'' \<mapsto> \<lparr>complexity_threshold = 7, accuracy_threshold = 17 / 20\<rparr>,
      ''default'' \<mapsto> \<lparr>complexity_threshold = 6, accuracy_threshold = 4 / 5\<rparr>]"

text \<open>
  \<open>self.default_preferences.get(domain.lower(), self.default_preferences["default"])\<close>:
  the second argument is evaluated before the lookup, so a dictionary without the key
  \<open>default\<close> raises.
\<close>

definition lookup_preferences :: "(string \<rightharpoonup> preference) \<Rightarrow> string \<Rightarrow> error + preference" where
  "lookup_preferences preferences domain =
     (case preferences ''default'' of
        None \<Rightarrow> Inl (KeyError ''default'')
      | Some dflt \<Rightarrow>
          (case preferences (lower domain) of Some p \<Rightarrow> Inr p | None \<Rightarrow> Inr dflt))"

text \<open>A row of \<open>AnalyticsService.get_performance_by_domain\<close>.\<close>

record performance =
  p_domain :: string
  p_approach :: string
  p_avg_tokens :: rat
  p_avg_time_ms :: rat
  p_accuracy :: "rat option"
  p_count :: nat

text \<open>\<open>next((p["accuracy"] for p in domain_performance if p["approach"] == "CoD"), None)\<close>\<close>

definition cod_accuracy_of :: "performance list \<Rightarrow> rat option" where
  "cod_accuracy_of domain_performance =
     (case filter (\<lambda>p. p_approach p = ''CoD'') domain_performance of
        [] \<Rightarrow> None
      | p # _ \<Rightarrow> p_accuracy p)"

text \<open>
  The second component of the pair \<open>select_approach\<close> returns: a fixed text, or one of
  the two formatted texts, kept as the numbers the format string is filled with.
\<close>

datatype reason =
    Literal string
  | Complexity_exceeds int int
  | Accuracy_below rat rat

text \<open>
  The analytics service is a collaborator: \<open>get_performance\<close> stands for
  \<open>self.analytics.get_performance_by_domain\<close>.
\<close>

definition select_approach ::
  "(string \<rightharpoonup> preference) \<Rightarrow> (string \<Rightarrow> performance list) \<Rightarrow> string \<Rightarrow> string \<Rightarrow> int option
     \<Rightarrow> error + (string \<times> reason)" where
  "select_approach preferences get_performance problem domain complexity_score =
     (case lookup_preferences preferences domain of
        Inl e \<Rightarrow> Inl e
      | Inr prefs \<Rightarrow>
          (let score = (case complexity_score of
                          None \<Rightarrow> estimate_complexity problem domain
                        | Some c \<Rightarrow> c)
           in if complexity_threshold prefs < score then
                Inr (''CoT'', Complexity_exceeds score (complexity_threshold prefs))
              else
                (case cod_accuracy_of (get_performance domain) of
                   None \<Rightarrow> Inr (''CoD'', Literal ''Default to Chain-of-Draft for efficiency'')
                 | Some cod_accuracy \<Rightarrow>
                     if cod_accuracy < accuracy_threshold prefs then
                       Inr (''CoT'', Accuracy_below cod_accuracy (accuracy_threshold prefs))
                     else Inr (''CoD'', Literal ''Default to Chain-of-Draft for efficiency''))))"

text \<open>
  An example of the examples database; the \<open>user\<close> entry of the dictionary that
  \<open>create_cod_prompt\<close> and \<open>create_cot_prompt\<close> return, the same expression in both
  (the \<open>system\<close> entry is never sent).
\<close>

record example =
  ex_problem :: string
  ex_reasoning :: string
  ex_answer :: string

definition example_text_of :: "example list \<Rightarrow> string" where
  "example_text_of examples =
     concat (map (\<lambda>ex. [newline] @ ''Problem: '' @ ex_problem ex @ [newline] @ ''Solution:'' @
                        [newline] @ ex_reasoning ex @ [newline] @ ''####'' @ [newline] @
                        ex_answer ex @ [newline]) examples)"

definition prompt_user :: "string \<Rightarrow> example list \<Rightarrow> string" where
  "prompt_user problem examples =
     (let example_text = example_text_of examples;
          user_prompt = ''Problem: '' @ problem
      in if example_text \<noteq> [] then example_text @ [newline] @ user_prompt else user_prompt)"

section \<open>Client (client.py)\<close>

subsection \<open>Settings\<close>

text \<open>
  The settings dictionary, with the keys the client reads. \<open>max_words_per_step\<close> may hold
  Python's \<open>None\<close> (the server passes it so); \<open>approach\<close>, \<open>model\<close> and \<open>temperature\<close>
  are \<open>None\<close> when the key is absent or holds \<open>None\<close>.
\<close>

record settings =
  max_words_per_step :: "int option"
  enforce_format :: bool
  adaptive_word_limit :: bool
  track_analytics :: bool
  max_tokens :: int
  model :: "string option"
  approach :: "string option"
  temperature :: "rat option"

definition default_settings :: settings where
  "default_settings =
     \<lparr> max_words_per_step = Some 8, enforce_format = True, adaptive_word_limit = True,
       track_analytics = True, max_tokens = 200000, model = None, approach = None,
       temperature = None \<rparr>"

text \<open>
  The keyword arguments of a call: \<open>None\<close> is a key that was not passed. The value
  passed for \<open>max_words_per_step\<close> or \<open>approach\<close> may itself be Python's \<open>None\<close>.
\<close>

record kwargs =
  kw_domain :: "string option"
  kw_max_words_per_step :: "int option option"
  kw_enforce_format :: "bool option"
  kw_adaptive_word_limit :: "bool option"
  kw_track_analytics :: "bool option"
  kw_max_tokens :: "int option"
  kw_model :: "string option"
  kw_approach :: "string option option"
  kw_temperature :: "rat option"

definition no_kwargs :: kwargs where
  "no_kwargs =
     \<lparr> kw_domain = None, kw_max_words_per_step = None, kw_enforce_format = None,
       kw_adaptive_word_limit = None, kw_track_analytics = None, kw_max_tokens = None,
       kw_model = None, kw_approach = None, kw_temperature = None \<rparr>"

text \<open>\<open>{**self.settings, **kwargs}\<close>: a key that was passed wins.\<close>

definition merge_settings :: "settings \<Rightarrow> kwargs \<Rightarrow> settings" where
  "merge_settings s kw =
     \<lparr> max_words_per_step =
         (case kw_max_words_per_step kw of None \<Rightarrow> max_words_per_step s | Some v \<Rightarrow> v),
       enforce_format = (case kw_enforce_format kw of None \<Rightarrow> enforce_format s | Some v \<Rightarrow> v),
       adaptive_word_limit =
         (case kw_adaptive_word_limit kw of None \<Rightarrow> adaptive_word_limit s | Some v \<Rightarrow> v),
       track_analytics = (case kw_track_analytics kw of None \<Rightarrow> track_analytics s | Some v \<Rightarrow> v),
       max_tokens = (case kw_max_tokens kw of None \<Rightarrow> max_tokens s | Some v \<Rightarrow> v),
       model = (case kw_model kw of None \<Rightarrow> model s | Some v \<Rightarrow> Some v),
       approach = (case kw_approach kw of None \<Rightarrow> approach s | Some v \<Rightarrow> v),
       temperature = (case kw_temperature kw of None \<Rightarrow> temperature s | Some v \<Rightarrow> Some v) \<rparr>"

subsection \<open>Collaborators and effects\<close>

record llm_request =
  req_messages :: "(string \<times> string) list"
  req_model :: string
  req_max_tokens :: int
  req_temperature :: rat

text \<open>What \<open>UnifiedLLMClient.chat\<close> returns: the text and the two usage counts.\<close>

record llm_response =
  content :: string
  input_tokens :: nat
  output_tokens :: nat

text \<open>The arguments of one \<open>record_inference\<close> call.\<close>

record inference_event =
  ev_problem :: string
  ev_domain :: string
  ev_approach :: string
  ev_word_limit :: "int option"
  ev_tokens_used :: nat
  ev_execution_time :: rat
  ev_reasoning :: string
  ev_answer :: string
  ev_complexity :: int
  ev_approach_reason :: reason
  ev_adherence :: "adherence option"

text \<open>
  The collaborators of one client: the selector's preferences, the analytics query, the
  examples database, the language model (which may fail) and the two readings of the
  clock.
\<close>

record env =
  preferences :: "string \<rightharpoonup> preference"
  get_performance_by_domain :: "string \<Rightarrow> performance list"
  get_examples :: "string \<Rightarrow> string \<Rightarrow> example list"
  llm_chat :: "llm_request \<Rightarrow> error + llm_response"
  start_time :: rat
  end_time :: rat

text \<open>The effects of a call, in order: the requests sent to the language model and the
  events recorded to analytics.\<close>

record world =
  llm_calls :: "llm_request list"
  recorded :: "inference_event list"

subsection \<open>solve_with_reasoning\<close>

text \<open>\<open>s.split("####")\<close>: the pieces between the occurrences of the separator, found
  from the left and not overlapping. The first argument is the piece being read,
  reversed.\<close>

fun split_marker_acc :: "string \<Rightarrow> string \<Rightarrow> string list" where
  "split_marker_acc acc [] = [rev acc]"
| "split_marker_acc acc (c # cs) =
     (if take 4 (c # cs) = ''####'' then rev acc # split_marker_acc [] (drop 3 cs)
      else split_marker_acc (c # acc) cs)"

definition split_marker :: "string \<Rightarrow> string list" where
  "split_marker s = split_marker_acc [] s"

text \<open>
  \<open>parts = full_response.split("####")\<close>, \<open>reasoning = parts[0].strip()\<close>,
  \<open>answer = parts[1].strip() if len(parts) > 1 else "No clear answer found"\<close>.
\<close>

definition extract_reasoning_answer :: "string \<Rightarrow> string \<times> string" where
  "extract_reasoning_answer full_response =
     (case split_marker full_response of
        [] \<Rightarrow> ([], ''No clear answer found'')
      | [p0] \<Rightarrow> (py_strip p0, ''No clear answer found'')
      | p0 # p1 # _ \<Rightarrow> (py_strip p0, py_strip p1))"

text \<open>The word limit, as the lines under \<open># Determine word limit\<close> set it.\<close>

definition word_limit_of :: "settings \<Rightarrow> string \<Rightarrow> int \<Rightarrow> int option" where
  "word_limit_of local_settings approach_name complexity =
     (if adaptive_word_limit local_settings \<and> approach_name = ''CoD'' then Some complexity
      else max_words_per_step local_settings)"

text \<open>
  Format enforcement under \<open># Apply format enforcement if needed\<close>. A limit that is
  \<open>None\<close> raises at the first comparison with a word count, that is when the reasoning
  has a step.
\<close>

definition apply_enforcement ::
  "settings \<Rightarrow> string \<Rightarrow> string \<Rightarrow> int option \<Rightarrow> error + (string \<times> adherence option)" where
  "apply_enforcement local_settings approach_name reasoning word_limit =
     (if enforce_format local_settings \<and> approach_name = ''CoD'' then
        (case word_limit of
           Some n \<Rightarrow>
             (let enforced = enforce_word_limit reasoning n
              in Inr (enforced, Some (analyze_adherence enforced n)))
         | None \<Rightarrow>
             if split_into_steps reasoning = [] then
               Inr ([], Some \<lparr> total_steps = 0, steps_within_limit = 0,
                     average_words_per_step = 0, max_words_in_any_step = 0,
                     adherence_rate = 1, step_counts = [] \<rparr>)
             else Inl (TypeError ''<= not supported between instances of int and NoneType''))
      else Inr (reasoning, None))"

record solve_result =
  reasoning_steps :: string
  final_answer :: string
  token_count :: nat
  res_approach :: string
  res_complexity :: int
  res_word_limit :: "int option"

text \<open>
  The approach: \<open>if local_settings.get("approach")\<close> takes a text that is not empty as
  the approach, and the selector is asked otherwise.
\<close>

definition resolve_approach ::
  "env \<Rightarrow> settings \<Rightarrow> string \<Rightarrow> string \<Rightarrow> int \<Rightarrow> error + (string \<times> reason)" where
  "resolve_approach e local_settings problem domain complexity =
     (case approach local_settings of
        Some a \<Rightarrow>
          if a \<noteq> [] then Inr (a, Literal ''Manually specified'')
          else select_approach (preferences e) (get_performance_by_domain e)
                 problem domain (Some complexity)
      | None \<Rightarrow>
          select_approach (preferences e) (get_performance_by_domain e)
            problem domain (Some complexity))"

text \<open>The arguments of \<open>self.llm_client.chat\<close>.\<close>

definition request_of :: "settings \<Rightarrow> string \<Rightarrow> example list \<Rightarrow> llm_request" where
  "request_of local_settings problem examples =
     \<lparr> req_messages = [(''user'', prompt_user problem examples)],
       req_model =
         (case model local_settings of None \<Rightarrow> ''claude-3-7-sonnet-latest'' | Some m \<Rightarrow> m),
       req_max_tokens = max_tokens local_settings,
       req_temperature = (case temperature local_settings of None \<Rightarrow> 7 / 10 | Some t \<Rightarrow> t) \<rparr>"

text \<open>
  The function from \<open># Extract reasoning and answer\<close> to its \<open>return\<close>: the split, the
  enforcement, the analytics event and the result.
\<close>

definition after_response ::
  "env \<Rightarrow> settings \<Rightarrow> string \<Rightarrow> string \<Rightarrow> int \<Rightarrow> string \<Rightarrow> reason \<Rightarrow> int option \<Rightarrow> string
     \<Rightarrow> world \<Rightarrow> (error + solve_result) \<times> world" where
  "after_response e local_settings problem domain complexity approach_name approach_reason
     word_limit full_response w1 =
     (case apply_enforcement local_settings approach_name
             (fst (extract_reasoning_answer full_response)) word_limit of
        Inl err \<Rightarrow> (Inl err, w1)
      | Inr (reasoning, adherence) \<Rightarrow>
          (let answer = snd (extract_reasoning_answer full_response);
               w2 =
                 (if track_analytics local_settings then
                    w1\<lparr>recorded := recorded w1 @
                      [\<lparr> ev_problem = problem,
                         ev_domain = domain,
                         ev_approach = approach_name,
                         ev_word_limit = word_limit,
                         ev_tokens_used = length (py_split full_response),
                         ev_execution_time = (end_time e - start_time e) * 1000,
                         ev_reasoning = reasoning,
                         ev_answer = answer,
                         ev_complexity = complexity,
                         ev_approach_reason = approach_reason,
                         ev_adherence = adherence \<rparr>]\<rparr>
                  else w1)
           in (Inr \<lparr> reasoning_steps = reasoning,
                     final_answer = answer,
                     token_count = length (py_split full_response),
                     res_approach = approach_name,
                     res_complexity = complexity,
                     res_word_limit = word_limit \<rparr>, w2)))"

definition solve_with_reasoning ::
  "env \<Rightarrow> settings \<Rightarrow> string \<Rightarrow> string \<Rightarrow> kwargs \<Rightarrow> world \<Rightarrow> (error + solve_result) \<times> world" where
  "solve_with_reasoning e self_settings problem domain kw w =
     (let local_settings = merge_settings self_settings kw;
          complexity = estimate_complexity problem domain
      in case resolve_approach e local_settings problem domain complexity of
           Inl err \<Rightarrow> (Inl err, w)
         | Inr (approach_name, approach_reason) \<Rightarrow>
             (let word_limit = word_limit_of local_settings approach_name complexity;
                  examples = get_examples e domain approach_name;
                  request = request_of local_settings problem examples;
                  w1 = w\<lparr>llm_calls := llm_calls w @ [request]\<rparr>
              in case llm_chat e request of
                   Inl err \<Rightarrow> (Inl err, w1)
                 | Inr response \<Rightarrow>
                     after_response e local_settings problem domain complexity approach_name
                       approach_reason word_limit (content response) w1))"

subsection \<open>The public interfaces\<close>

text \<open>
  The responses keep the fields computed from the result; the identifier and the
  creation time, drawn from \<open>uuid\<close> and the clock, are left out.
\<close>

record completion =
  c_model :: string
  c_text :: string
  c_prompt_tokens :: nat
  c_completion_tokens :: nat
  c_total_tokens :: nat
  c_reasoning :: string
  c_approach :: string
  c_word_limit :: "int option"

text \<open>\<open>model or self.settings["model"]\<close>\<close>

definition model_or_setting :: "string option \<Rightarrow> settings \<Rightarrow> error + string" where
  "model_or_setting model_arg self_settings =
     (case model_arg of
        Some m \<Rightarrow>
          if m \<noteq> [] then Inr m
          else (case model self_settings of None \<Rightarrow> Inl (KeyError ''model'') | Some m' \<Rightarrow> Inr m')
      | None \<Rightarrow> (case model self_settings of None \<Rightarrow> Inl (KeyError ''model'') | Some m' \<Rightarrow> Inr m'))"

text \<open>
  The call \<open>self.solve_with_reasoning(problem, domain, model=..., **kwargs)\<close> shared by
  the three interfaces: \<open>domain\<close> is passed by position, so a \<open>domain\<close> among the keyword
  arguments is a second value for the same parameter.
\<close>

definition call_solve ::
  "env \<Rightarrow> settings \<Rightarrow> string option \<Rightarrow> string \<Rightarrow> kwargs \<Rightarrow> world
     \<Rightarrow> (error + (string \<times> solve_result)) \<times> world" where
  "call_solve e self_settings model_arg problem kw w =
     (let domain = (case kw_domain kw of None \<Rightarrow> ''general'' | Some d \<Rightarrow> d)
      in case model_or_setting model_arg self_settings of
           Inl err \<Rightarrow> (Inl err, w)
         | Inr m \<Rightarrow>
             if kw_domain kw \<noteq> None then
               (Inl (TypeError ''got multiple values for argument domain''), w)
             else
               (case solve_with_reasoning e self_settings problem domain (kw\<lparr>kw_model := Some m\<rparr>) w of
                  (Inl err, w') \<Rightarrow> (Inl err, w')
                | (Inr result, w') \<Rightarrow> (Inr (m, result), w')))"

definition completions ::
  "env \<Rightarrow> settings \<Rightarrow> string option \<Rightarrow> string option \<Rightarrow> kwargs \<Rightarrow> world
     \<Rightarrow> (error + completion) \<times> world" where
  "completions e self_settings model_arg prompt kw w =
     (case prompt of
        None \<Rightarrow> (Inl (ValueError ''Prompt is required''), w)
      | Some p \<Rightarrow>
          if p = [] then (Inl (ValueError ''Prompt is required''), w)
          else
            (case call_solve e self_settings model_arg p kw w of
               (Inl err, w') \<Rightarrow> (Inl err, w')
             | (Inr (m, result), w') \<Rightarrow>
                 (Inr \<lparr> c_model = m,
                        c_text = final_answer result,
                        c_prompt_tokens = length (py_split p),
                        c_completion_tokens = token_count result,
                        c_total_tokens = length (py_split p) + token_count result,
                        c_reasoning = reasoning_steps result,
                        c_approach = res_approach result,
                        c_word_limit = res_word_limit result \<rparr>, w')))"

record message =
  role :: string
  msg_content :: string

text \<open>\<open>next((m["content"] for m in reversed(messages) if m["role"] == "user"), "")\<close>\<close>

definition last_user_msg_of :: "message list \<Rightarrow> string" where
  "last_user_msg_of msgs =
     (case filter (\<lambda>m. role m = ''user'') (rev msgs) of
        [] \<Rightarrow> []
      | m # _ \<Rightarrow> msg_content m)"

text \<open>
  \<open>chat\<close> and \<open>messages\<close> have the same body up to the layout of the response; both
  give the text \<open>reasoning\n\n####\nanswer\<close>.
\<close>

definition chat_like ::
  "env \<Rightarrow> settings \<Rightarrow> string option \<Rightarrow> message list option \<Rightarrow> kwargs \<Rightarrow> world
     \<Rightarrow> (error + completion) \<times> world" where
  "chat_like e self_settings model_arg msgs_arg kw w =
     (case msgs_arg of
        None \<Rightarrow> (Inl (ValueError ''Messages are required''), w)
      | Some msgs \<Rightarrow>
          if msgs = [] then (Inl (ValueError ''Messages are required''), w)
          else
            (let last_user_msg = last_user_msg_of msgs
             in if last_user_msg = [] then
                  (Inl (ValueError ''No user message found in the provided messages''), w)
                else
                  (case call_solve e self_settings model_arg last_user_msg kw w of
                     (Inl err, w') \<Rightarrow> (Inl err, w')
                   | (Inr (m, result), w') \<Rightarrow>
                       (let n = sum_list (map (\<lambda>m. length (py_split (msg_content m))) msgs)
                        in (Inr \<lparr> c_model = m,
                                  c_text = reasoning_steps result @ [newline, newline] @ ''####'' @
                                           [newline] @ final_answer result,
                                  c_prompt_tokens = n,
                                  c_completion_tokens = token_count result,
                                  c_total_tokens = n + token_count result,
                                  c_reasoning = reasoning_steps result,
                                  c_approach = res_approach result,
                                  c_word_limit = res_word_limit result \<rparr>, w')))))"

definition chat ::
  "env \<Rightarrow> settings \<Rightarrow> string option \<Rightarrow> message list option \<Rightarrow> kwargs \<Rightarrow> world
     \<Rightarrow> (error + completion) \<times> world" where
  "chat = chat_like"

definition messages ::
  "env \<Rightarrow> settings \<Rightarrow> string option \<Rightarrow> message list option \<Rightarrow> kwargs \<Rightarrow> world
     \<Rightarrow> (error + completion) \<times> world" where
  "messages = chat_like"

section \<open>Lemmas on the text primitives\<close>

lemma split_acc_pending:
  "w \<noteq> [] \<Longrightarrow> split_acc w s =
     (rev w @ takeWhile (\<lambda>c. \<not> is_space c) s) # split_acc [] (dropWhile (\<lambda>c. \<not> is_space c) s)"
  by (induction s arbitrary: w) auto

lemma split_acc_dropWhile_space: "split_acc [] (dropWhile is_space s) = split_acc [] s"
  by (induction s) auto

lemma split_acc_trailing_space:
  "\<forall>c\<in>set u. is_space c \<Longrightarrow> split_acc w (s @ u) = split_acc w s"
proof (induction s arbitrary: w)
  case Nil
  then show ?case by (induction u arbitrary: w) auto
next
  case (Cons c cs)
  then show ?case by simp
qed

lemma rev_dropWhile_rev_decomp:
  "\<exists>u. s = rev (dropWhile P (rev s)) @ u \<and> (\<forall>c\<in>set u. P c)"
proof -
  have "rev s = takeWhile P (rev s) @ dropWhile P (rev s)" by simp
  then have "s = rev (dropWhile P (rev s)) @ rev (takeWhile P (rev s))"
    by (metis rev_append rev_rev_ident)
  moreover have "\<forall>c\<in>set (rev (takeWhile P (rev s))). P c"
    by (auto dest: set_takeWhileD)
  ultimately show ?thesis by blast
qed

lemma py_split_strip: "py_split (py_strip s) = py_split s"
proof -
  obtain u where u: "dropWhile is_space s = py_strip s @ u" "\<forall>c\<in>set u. is_space c"
    unfolding py_strip_def using rev_dropWhile_rev_decomp [of "dropWhile is_space s" is_space] by blast
  have "py_split (py_strip s) = split_acc [] (py_strip s @ u)"
    using u(2) by (simp add: py_split_def split_acc_trailing_space)
  also have "\<dots> = split_acc [] (dropWhile is_space s)" using u(1) by simp
  also have "\<dots> = py_split s" by (simp add: py_split_def split_acc_dropWhile_space)
  finally show ?thesis .
qed

lemma split_acc_words:
  "x \<in> set (split_acc w s) \<Longrightarrow> \<forall>c\<in>set w. \<not> is_space c \<Longrightarrow>
     x \<noteq> [] \<and> (\<forall>c\<in>set x. \<not> is_space c)"
proof (induction s arbitrary: w)
  case Nil
  then show ?case by (cases "w = []") auto
next
  case (Cons c cs)
  have nil: "\<forall>c\<in>set ([]::string). \<not> is_space c" by simp
  show ?case
  proof (cases "is_space c")
    case True
    show ?thesis
    proof (cases "w = []")
      case w: True
      with True Cons.prems(1) have "x \<in> set (split_acc [] cs)" by simp
      then show ?thesis using nil by (rule Cons.IH)
    next
      case w: False
      with True Cons.prems(1) have "x = rev w \<or> x \<in> set (split_acc [] cs)" by simp
      then show ?thesis
      proof
        assume "x = rev w"
        then show ?thesis using w Cons.prems(2) by simp
      next
        assume "x \<in> set (split_acc [] cs)"
        then show ?thesis using nil by (rule Cons.IH)
      qed
    qed
  next
    case False
    with Cons.prems(1) have "x \<in> set (split_acc (c # w) cs)" by simp
    moreover have "\<forall>d\<in>set (c # w). \<not> is_space d" using False Cons.prems(2) by simp
    ultimately show ?thesis by (rule Cons.IH)
  qed
qed

lemma py_split_words: "list_all is_word (py_split s)"
proof -
  have "is_word x" if "x \<in> set (py_split s)" for x
  proof -
    have "x \<in> set (split_acc [] s)" using that by (simp add: py_split_def)
    moreover have "\<forall>c\<in>set ([]::string). \<not> is_space c" by simp
    ultimately have "x \<noteq> [] \<and> (\<forall>c\<in>set x. \<not> is_space c)" by (rule split_acc_words)
    then show ?thesis by (simp add: is_word_def list_all_iff)
  qed
  then show ?thesis by (simp add: list_all_iff)
qed

lemma length_split_acc_tl: "length (split_acc [] cs) \<le> length (split_acc [] (c # cs))"
proof (cases "is_space c")
  case True
  then show ?thesis by simp
next
  case False
  show ?thesis
  proof (cases cs)
    case Nil
    then show ?thesis by simp
  next
    case (Cons d ds)
    show ?thesis
    proof (cases "is_space d")
      case True
      with False Cons show ?thesis by (simp add: split_acc_pending)
    next
      case nsd: False
      with False Cons show ?thesis by (simp add: split_acc_pending)
    qed
  qed
qed

lemma length_py_split_drop: "length (py_split (drop k s)) \<le> length (py_split s)"
proof (induction s arbitrary: k)
  case Nil
  then show ?case by simp
next
  case (Cons c cs)
  show ?case
  proof (cases k)
    case 0
    then show ?thesis by simp
  next
    case (Suc j)
    have "length (py_split (drop j cs)) \<le> length (py_split cs)" by (rule Cons.IH)
    also have "\<dots> \<le> length (py_split (c # cs))"
      unfolding py_split_def by (rule length_split_acc_tl)
    finally show ?thesis using Suc by simp
  qed
qed

lemma split_acc_word_prefix:
  "list_all (\<lambda>c. \<not> is_space c) x \<Longrightarrow> split_acc w (x @ r) = split_acc (rev x @ w) r"
  by (induction x arbitrary: w) simp_all

lemma py_split_join: "list_all is_word ws \<Longrightarrow> py_split (join '' '' ws) = ws"
proof (induction "'' ''" ws rule: join.induct)
  case 1
  then show ?case by (simp add: py_split_def)
next
  case (2 x)
  then have "list_all (\<lambda>c. \<not> is_space c) x" "x \<noteq> []" by (simp_all add: is_word_def)
  then show ?case
    using split_acc_word_prefix [of x "[]" "[]"] by (simp add: py_split_def)
next
  case (3 x y ys)
  then have x: "list_all (\<lambda>c. \<not> is_space c) x" "x \<noteq> []" by (simp_all add: is_word_def)
  have "py_split (join '' '' (y # ys)) = y # ys" using 3 by simp
  then show ?case
    using x split_acc_word_prefix [of x "[]" "CHR '' '' # join '' '' (y # ys)"]
    by (simp add: py_split_def is_space_def)
qed

lemma join_words_no_leading_space:
  assumes "list_all is_word ws"
  shows "takeWhile is_space (join '' '' ws) = []"
proof (cases ws)
  case Nil
  then show ?thesis by simp
next
  case (Cons x xs)
  with assms obtain c cs where x: "x = c # cs" "\<not> is_space c"
    by (cases x) (auto simp: is_word_def)
  show ?thesis using Cons x by (cases xs) simp_all
qed

section \<open>Lemmas on the marker patterns\<close>

lemma space_not_digit: "is_space c \<Longrightarrow> \<not> is_digit c"
  by (auto simp: is_space_def is_digit_def)

lemma takeWhile_run:
  "list_all P xs \<Longrightarrow> takeWhile P r = [] \<Longrightarrow> takeWhile P (xs @ r) = xs"
  by (induction xs) simp_all

lemma dropWhile_run:
  "list_all P xs \<Longrightarrow> takeWhile P r = [] \<Longrightarrow> dropWhile P (xs @ r) = r"
  by (induction xs) (simp_all add: takeWhile_eq_Nil_iff dropWhile_eq_self_iff)

lemma list_all_takeWhile: "list_all P (takeWhile P xs)"
  by (induction xs) simp_all

lemma takeWhile_dropWhile_Nil: "takeWhile P (dropWhile P xs) = []"
  by (induction xs) simp_all

text \<open>The alternative \<open>\d+\.\s*\<close>: what a match looks like, and that such a text matches.\<close>

lemma m_number_SomeI:
  assumes "ds \<noteq> []" "list_all is_digit ds" "list_all is_space ws" "takeWhile is_space r = []"
  shows "m_number (ds @ CHR ''.'' # ws @ r) = Some (length ds + 1 + length ws)"
proof -
  have nd: "takeWhile is_digit (CHR ''.'' # ws @ r) = []" by (simp add: is_digit_def)
  have "takeWhile is_digit (ds @ CHR ''.'' # ws @ r) = ds"
    using assms(2) nd by (rule takeWhile_run)
  moreover have "dropWhile is_digit (ds @ CHR ''.'' # ws @ r) = CHR ''.'' # ws @ r"
    using assms(2) nd by (rule dropWhile_run)
  moreover have "takeWhile is_space (ws @ r) = ws"
    using assms(3,4) by (rule takeWhile_run)
  ultimately show ?thesis using assms(1) by (simp add: m_number_def)
qed

lemma m_number_SomeD:
  assumes "m_number s = Some k"
  shows "\<exists>ds ws r. s = ds @ CHR ''.'' # ws @ r \<and> ds \<noteq> [] \<and> list_all is_digit ds \<and>
           list_all is_space ws \<and> takeWhile is_space r = [] \<and> k = length ds + 1 + length ws"
proof -
  obtain r0 where r0: "dropWhile is_digit s = CHR ''.'' # r0" "takeWhile is_digit s \<noteq> []"
      "k = length (takeWhile is_digit s) + 1 + length (takeWhile is_space r0)"
    using assms by (auto simp: m_number_def Let_def split: list.splits if_splits)
  have "s = takeWhile is_digit s @ dropWhile is_digit s" by simp
  then have "s = takeWhile is_digit s @ CHR ''.'' # takeWhile is_space r0 @ dropWhile is_space r0"
    using r0(1) by simp
  then show ?thesis using r0(2,3) list_all_takeWhile [of is_digit s]
      list_all_takeWhile [of is_space r0] takeWhile_dropWhile_Nil [of is_space r0]
    by blast
qed

text \<open>The alternative \<open>Step\s+\d+:\<close>.\<close>

lemma m_step_SomeI:
  assumes "ws \<noteq> []" "list_all is_space ws" "ds \<noteq> []" "list_all is_digit ds"
  shows "m_step (''Step'' @ ws @ ds @ CHR '':'' # r) = Some (4 + length ws + length ds + 1)"
proof -
  obtain d ds' where d: "ds = d # ds'" "is_digit d" using assms(3,4) by (cases ds) auto
  have ns: "takeWhile is_space (ds @ CHR '':'' # r) = []"
    using d space_not_digit by auto
  have nd: "takeWhile is_digit (CHR '':'' # r) = []" by (simp add: is_digit_def)
  have 1: "takeWhile is_space (ws @ ds @ CHR '':'' # r) = ws"
    using assms(2) ns by (rule takeWhile_run)
  have 2: "dropWhile is_space (ws @ ds @ CHR '':'' # r) = ds @ CHR '':'' # r"
    using assms(2) ns by (rule dropWhile_run)
  have 3: "takeWhile is_digit (ds @ CHR '':'' # r) = ds"
    using assms(4) nd by (rule takeWhile_run)
  have 4: "dropWhile is_digit (ds @ CHR '':'' # r) = CHR '':'' # r"
    using assms(4) nd by (rule dropWhile_run)
  show ?thesis using assms(1,3) by (simp add: m_step_def 1 2 3 4)
qed

lemma m_step_SomeD:
  assumes "m_step s = Some k"
  shows "\<exists>ws ds r. s = ''Step'' @ ws @ ds @ CHR '':'' # r \<and> ws \<noteq> [] \<and> list_all is_space ws \<and>
           ds \<noteq> [] \<and> list_all is_digit ds \<and> k = 4 + length ws + length ds + 1"
proof -
  define r0 where "r0 = drop 4 s"
  define r1 where "r1 = dropWhile is_space r0"
  define r2 where "r2 = dropWhile is_digit r1"
  have h: "take 4 s = ''Step''" "takeWhile is_space r0 \<noteq> []" "takeWhile is_digit r1 \<noteq> []"
      "take 1 r2 = '':''"
      "k = 4 + length (takeWhile is_space r0) + length (takeWhile is_digit r1) + 1"
    using assms unfolding r0_def r1_def r2_def
    by (auto simp: m_step_def Let_def split: if_splits)
  obtain r3 where r3: "r2 = CHR '':'' # r3" using h(4) by (cases r2) auto
  have "s = take 4 s @ r0" by (simp add: r0_def)
  also have "r0 = takeWhile is_space r0 @ r1" by (simp add: r1_def)
  also have "r1 = takeWhile is_digit r1 @ r2" by (simp add: r2_def)
  finally have "s = ''Step'' @ takeWhile is_space r0 @ takeWhile is_digit r1 @ CHR '':'' # r3"
    using h(1) r3 by simp
  then show ?thesis using h(2,3,5) list_all_takeWhile [of is_space r0]
      list_all_takeWhile [of is_digit r1]
    by blast
qed

text \<open>The alternatives \<open>\s*-\s+\<close> and \<open>\s*\*\s+\<close>.\<close>

lemma m_ws_sym_SomeI:
  assumes "list_all is_space ws" "\<not> is_space ch" "ws' \<noteq> []" "list_all is_space ws'"
    "takeWhile is_space r = []"
  shows "m_ws_sym ch (ws @ ch # ws' @ r) = Some (length ws + 1 + length ws')"
proof -
  have ns: "takeWhile is_space (ch # ws' @ r) = []" using assms(2) by simp
  have 1: "takeWhile is_space (ws @ ch # ws' @ r) = ws" using assms(1) ns by (rule takeWhile_run)
  have 2: "dropWhile is_space (ws @ ch # ws' @ r) = ch # ws' @ r"
    using assms(1) ns by (rule dropWhile_run)
  have 3: "takeWhile is_space (ws' @ r) = ws'" using assms(4,5) by (rule takeWhile_run)
  show ?thesis using assms(3) by (simp add: m_ws_sym_def 1 2 3)
qed

lemma m_ws_sym_SomeD:
  assumes "m_ws_sym ch s = Some k"
  shows "\<exists>ws ws' r. s = ws @ ch # ws' @ r \<and> list_all is_space ws \<and> ws' \<noteq> [] \<and>
           list_all is_space ws' \<and> takeWhile is_space r = [] \<and> k = length ws + 1 + length ws'"
proof -
  obtain r0 where r0: "dropWhile is_space s = ch # r0" "takeWhile is_space r0 \<noteq> []"
      "k = length (takeWhile is_space s) + 1 + length (takeWhile is_space r0)"
    using assms by (auto simp: m_ws_sym_def split: list.splits if_splits)
  have "s = takeWhile is_space s @ dropWhile is_space s" by simp
  then have "s = takeWhile is_space s @ ch # takeWhile is_space r0 @ dropWhile is_space r0"
    using r0(1) by simp
  then show ?thesis using r0(2,3) list_all_takeWhile [of is_space s]
      list_all_takeWhile [of is_space r0] takeWhile_dropWhile_Nil [of is_space r0]
    by blast
qed

lemma m_ws_sym_other:
  assumes "list_all is_space ws" "\<not> is_space c" "c \<noteq> ch"
  shows "m_ws_sym ch (ws @ c # r) = None"
proof -
  have ns: "takeWhile is_space (c # r) = []" using assms(2) by simp
  have "dropWhile is_space (ws @ c # r) = c # r" using assms(1) ns by (rule dropWhile_run)
  then show ?thesis using assms(3) by (simp add: m_ws_sym_def)
qed

text \<open>A literal followed by \<open>\s+\<close>.\<close>

lemma m_lit_ws_SomeI:
  assumes "ws \<noteq> []" "list_all is_space ws" "takeWhile is_space r = []"
  shows "m_lit_ws lit (lit @ ws @ r) = Some (length lit + length ws)"
proof -
  have "takeWhile is_space (ws @ r) = ws" using assms(2,3) by (rule takeWhile_run)
  then show ?thesis using assms(1) by (simp add: m_lit_ws_def)
qed

lemma m_lit_ws_SomeD:
  assumes "m_lit_ws lit s = Some k"
  shows "\<exists>ws r. s = lit @ ws @ r \<and> ws \<noteq> [] \<and> list_all is_space ws \<and>
           takeWhile is_space r = [] \<and> k = length lit + length ws"
proof -
  define r0 where "r0 = drop (length lit) s"
  have h: "take (length lit) s = lit" "takeWhile is_space r0 \<noteq> []"
      "k = length lit + length (takeWhile is_space r0)"
    using assms unfolding r0_def by (auto simp: m_lit_ws_def Let_def split: if_splits)
  have "s = take (length lit) s @ r0" by (simp add: r0_def)
  then have "s = lit @ takeWhile is_space r0 @ dropWhile is_space r0" using h(1) by simp
  then show ?thesis using h(2,3) list_all_takeWhile [of is_space r0]
      takeWhile_dropWhile_Nil [of is_space r0]
    by blast
qed

lemma m_number_None_hd: "\<not> is_digit c \<Longrightarrow> m_number (c # cs) = None"
  by (simp add: m_number_def)

lemma m_step_None_hd: "c \<noteq> CHR ''S'' \<Longrightarrow> m_step (c # cs) = None"
  by (simp add: m_step_def)

lemma ws_sym_head:
  assumes "list_all is_space ws"
  shows "\<exists>c cs. ws @ ch # r = c # cs \<and> (is_space c \<or> c = ch)"
  using assms by (cases ws) auto

lemma take_prefix:
  "s = m @ r \<Longrightarrow> length m = k \<Longrightarrow> take k s @ t = m @ t \<and> k \<le> length s"
  by auto

lemma marker_match_stable:
  assumes "marker_match s = Some k" "takeWhile is_space t = []"
  shows "k \<le> length s \<and> 0 < k \<and> marker_match (take k s @ t) = Some k"
proof -
  consider
      (num) "m_number s = Some k"
    | (step) "m_number s = None" "m_step s = Some k"
    | (dash) "m_number s = None" "m_step s = None" "m_ws_sym CHR ''-'' s = Some k"
    | (star) "m_number s = None" "m_step s = None" "m_ws_sym CHR ''-'' s = None"
        "m_ws_sym CHR ''*'' s = Some k"
    | (bull) "m_number s = None" "m_step s = None" "m_ws_sym CHR ''-'' s = None"
        "m_ws_sym CHR ''*'' s = None" "m_lit_ws bullet s = Some k"
    using assms(1) by (auto simp: marker_match_def split: option.splits)
  then show ?thesis
  proof cases
    case num
    then obtain ds ws r where d: "s = ds @ CHR ''.'' # ws @ r" "ds \<noteq> []" "list_all is_digit ds"
        "list_all is_space ws" "k = length ds + 1 + length ws"
      using m_number_SomeD by blast
    have "take k s @ t = (ds @ CHR ''.'' # ws) @ t \<and> k \<le> length s"
      using d(1,5) by (intro take_prefix [where r = r]) simp_all
    moreover have "m_number (ds @ CHR ''.'' # ws @ t) = Some k"
      using m_number_SomeI [OF d(2,3,4) assms(2)] d(5) by simp
    ultimately show ?thesis using d(5) by (simp add: marker_match_def)
  next
    case step
    then obtain ws ds r where d: "s = ''Step'' @ ws @ ds @ CHR '':'' # r" "ws \<noteq> []"
        "list_all is_space ws" "ds \<noteq> []" "list_all is_digit ds"
        "k = 4 + length ws + length ds + 1"
      using m_step_SomeD by blast
    have e: "take k s @ t = (''Step'' @ ws @ ds @ '':'') @ t \<and> k \<le> length s"
      using d(1,6) by (intro take_prefix [where r = r]) simp_all
    have "m_step (''Step'' @ ws @ ds @ CHR '':'' # t) = Some k"
      using m_step_SomeI [OF d(2,3,4,5)] d(6) by simp
    moreover have "m_number (''Step'' @ ws @ ds @ CHR '':'' # t) = None"
      by (simp add: m_number_None_hd is_digit_def)
    ultimately show ?thesis using d(6) e by (simp add: marker_match_def)
  next
    case dash
    then obtain ws ws' r where d: "s = ws @ CHR ''-'' # ws' @ r" "list_all is_space ws"
        "ws' \<noteq> []" "list_all is_space ws'" "k = length ws + 1 + length ws'"
      using m_ws_sym_SomeD by blast
    let ?e = "ws @ CHR ''-'' # ws' @ t"
    have e: "take k s @ t = (ws @ CHR ''-'' # ws') @ t \<and> k \<le> length s"
      using d(1,5) by (intro take_prefix [where r = r]) simp_all
    have nsp: "\<not> is_space CHR ''-''" by (simp add: is_space_def)
    have 3: "m_ws_sym CHR ''-'' ?e = Some k"
      using m_ws_sym_SomeI [OF d(2) nsp d(3,4) assms(2)] d(5) by simp
    obtain c cs where h: "?e = c # cs" "is_space c \<or> c = CHR ''-''"
      using ws_sym_head [OF d(2)] by blast
    have "\<not> is_digit c" using h(2) space_not_digit by (auto simp: is_digit_def)
    then have 1: "m_number ?e = None" unfolding h(1) by (rule m_number_None_hd)
    have "c \<noteq> CHR ''S''" using h(2) by (auto simp: is_space_def)
    then have 2: "m_step ?e = None" unfolding h(1) by (rule m_step_None_hd)
    show ?thesis using d(5) e 1 2 3 by (simp add: marker_match_def)
  next
    case star
    then obtain ws ws' r where d: "s = ws @ CHR ''*'' # ws' @ r" "list_all is_space ws"
        "ws' \<noteq> []" "list_all is_space ws'" "k = length ws + 1 + length ws'"
      using m_ws_sym_SomeD by blast
    let ?e = "ws @ CHR ''*'' # ws' @ t"
    have e: "take k s @ t = (ws @ CHR ''*'' # ws') @ t \<and> k \<le> length s"
      using d(1,5) by (intro take_prefix [where r = r]) simp_all
    have nsp: "\<not> is_space CHR ''*''" by (simp add: is_space_def)
    have 4: "m_ws_sym CHR ''*'' ?e = Some k"
      using m_ws_sym_SomeI [OF d(2) nsp d(3,4) assms(2)] d(5) by simp
    have 3: "m_ws_sym CHR ''-'' ?e = None"
      using d(2) nsp by (rule m_ws_sym_other) simp
    obtain c cs where h: "?e = c # cs" "is_space c \<or> c = CHR ''*''"
      using ws_sym_head [OF d(2)] by blast
    have "\<not> is_digit c" using h(2) space_not_digit by (auto simp: is_digit_def)
    then have 1: "m_number ?e = None" unfolding h(1) by (rule m_number_None_hd)
    have "c \<noteq> CHR ''S''" using h(2) by (auto simp: is_space_def)
    then have 2: "m_step ?e = None" unfolding h(1) by (rule m_step_None_hd)
    show ?thesis using d(5) e 1 2 3 4 by (simp add: marker_match_def)
  next
    case bull
    then obtain ws r where d: "s = bullet @ ws @ r" "ws \<noteq> []" "list_all is_space ws"
        "k = length bullet + length ws"
      using m_lit_ws_SomeD by blast
    let ?e = "bullet @ ws @ t"
    have e: "take k s @ t = (bullet @ ws) @ t \<and> k \<le> length s"
      using d(1,4) by (intro take_prefix [where r = r]) simp_all
    have 5: "m_lit_ws bullet ?e = Some k"
      using m_lit_ws_SomeI [OF d(2,3) assms(2)] d(4) by simp
    have h: "?e = CHR 0xE2 # ([CHR 0x80, CHR 0xA2] @ ws @ t)" by (simp add: bullet_def)
    have nsp: "\<not> is_space (CHR 0xE2)" by (simp add: is_space_def)
    have nil: "list_all is_space []" by simp
    have 1: "m_number ?e = None" unfolding h by (rule m_number_None_hd) (simp add: is_digit_def)
    have 2: "m_step ?e = None" unfolding h by (rule m_step_None_hd) simp
    have 3: "m_ws_sym CHR ''-'' ?e = None"
      unfolding h using m_ws_sym_other [OF nil nsp, of "CHR ''-''"] by simp
    have 4: "m_ws_sym CHR ''*'' ?e = None"
      unfolding h using m_ws_sym_other [OF nil nsp, of "CHR ''*''"] by simp
    show ?thesis using d(2,4) e 1 2 3 4 5 by (simp add: marker_match_def)
  qed
qed

text \<open>
  The marker of a truncated step is the marker of the step it came from, so the content
  counted afterwards is the truncated content.
\<close>

lemma step_count_le_words: "step_count s \<le> length (py_split s)"
  by (simp add: step_count_def content_of_def Let_def py_split_strip length_py_split_drop)

lemma step_count_enforce_step:
  assumes "0 \<le> n"
  shows "int (step_count (enforce_step s n)) \<le> n"
proof (cases "int (length (py_split s)) \<le> n")
  case True
  then have "enforce_step s n = s" by (simp add: enforce_step_def)
  moreover have "int (step_count s) \<le> int (length (py_split s))"
    using step_count_le_words [of s] by simp
  ultimately show ?thesis using True by simp
next
  case False
  define content where "content = (if marker_of s \<noteq> [] then py_strip (drop (length (marker_of s)) s) else s)"
  define truncated where "truncated = join '' '' (take (nat n) (py_split content))"
  have e: "enforce_step s n = marker_of s @ truncated"
    using False assms by (simp add: enforce_step_def Let_def slice_to_def content_def truncated_def)
  have words: "list_all is_word (take (nat n) (py_split content))"
    using py_split_words [of content] by (auto simp: list_all_iff dest: in_set_takeD)
  have trunc_words: "py_split truncated = take (nat n) (py_split content)"
    unfolding truncated_def using words by (rule py_split_join)
  have trunc_start: "takeWhile is_space truncated = []"
    unfolding truncated_def using words by (rule join_words_no_leading_space)
  have trunc_len: "int (length (py_split truncated)) \<le> n"
    using assms by (simp add: trunc_words)
  show ?thesis
  proof (cases "marker_match s")
    case None
    then have "enforce_step s n = truncated" using e by (simp add: marker_of_def)
    moreover have "int (step_count truncated) \<le> int (length (py_split truncated))"
      using step_count_le_words [of truncated] by simp
    ultimately show ?thesis using trunc_len by simp
  next
    case (Some k)
    have st: "k \<le> length s \<and> 0 < k \<and> marker_match (take k s @ truncated) = Some k"
      using Some trunc_start by (rule marker_match_stable)
    have m: "marker_of s = take k s" using Some by (simp add: marker_of_def)
    have "marker_of (take k s @ truncated) = take k s" using st by (simp add: marker_of_def)
    moreover have "take k s \<noteq> []" using st by auto
    ultimately have "content_of (take k s @ truncated) = py_strip truncated"
      using st by (simp add: content_of_def Let_def)
    then have "step_count (enforce_step s n) = length (py_split truncated)"
      using e m by (simp add: step_count_def py_split_strip)
    then show ?thesis using trunc_len by simp
  qed
qed


section \<open>Lemmas on the answer separator\<close>

lemma take4_sublist: "take 4 s = ''####'' \<Longrightarrow> sublist ''####'' s"
proof -
  assume "take 4 s = ''####''"
  then have "s = [] @ ''####'' @ drop 4 s" using append_take_drop_id [of 4 s] by simp
  then show ?thesis unfolding sublist_def by blast
qed

lemma split_marker_acc_absent:
  "\<not> sublist ''####'' s \<Longrightarrow> split_marker_acc acc s = [rev acc @ s]"
proof (induction s arbitrary: acc)
  case Nil
  then show ?case by simp
next
  case (Cons c cs)
  have 1: "take 4 (c # cs) \<noteq> ''####''" using Cons.prems take4_sublist by blast
  have "\<not> sublist ''####'' cs" using Cons.prems by (meson sublist_Cons_right)
  then have "split_marker_acc (c # acc) cs = [rev (c # acc) @ cs]" by (rule Cons.IH)
  then show ?case using 1 by simp
qed

lemma take_within: "n \<le> length xs \<Longrightarrow> take n (xs @ ys) = take n xs"
  by simp

lemma split_marker_acc_first:
  "\<not> sublist ''####'' (u @ ''###'') \<Longrightarrow>
     split_marker_acc acc (u @ ''####'' @ v) = (rev acc @ u) # split_marker_acc [] v"
proof (induction u arbitrary: acc)
  case Nil
  then show ?case by simp
next
  case (Cons c u)
  have e1: "(c # u) @ ''####'' @ v = ((c # u) @ ''###'') @ (CHR ''#'' # v)" by simp
  have e2: "take 4 (((c # u) @ ''###'') @ (CHR ''#'' # v)) = take 4 ((c # u) @ ''###'')"
    by (rule take_within) simp
  have ne: "take 4 ((c # u) @ ''###'') \<noteq> ''####''" using Cons.prems take4_sublist by blast
  have 1: "take 4 ((c # u) @ ''####'' @ v) \<noteq> ''####''" unfolding e1 e2 by (rule ne)
  have "\<not> sublist ''####'' (u @ ''###'')" using Cons.prems by (simp add: sublist_Cons_right)
  then have "split_marker_acc (c # acc) (u @ ''####'' @ v) = (rev (c # acc) @ u) # split_marker_acc [] v"
    by (rule Cons.IH)
  then show ?case using 1 by simp
qed


section \<open>Properties of the complexity estimator\<close>

text \<open>
  C1. For every problem text and every domain string, \<open>estimate_complexity\<close> returns an
  integer of the closed range from 3 to 10. The function is a HOL function of its two
  arguments, with no other input: two calls on the same arguments give the same value.
\<close>

theorem estimate_complexity_range:
  "3 \<le> estimate_complexity problem domain \<and> estimate_complexity problem domain \<le> 10"
  by (simp add: estimate_complexity_def Let_def)

text \<open>
  C6, as the code has it. The claim that each of the four factors is at least 1 fails for
  the length factor and the sentence-complexity factor, which start at 0: the length
  factor is below 1 exactly when the text has fewer than 50 words. What holds: the
  indicator factor lies between 1 and 9/5 and the question factor is at least 1; the
  length factor lies between 0 and 2 and the sentence-complexity factor between 0 and
  3/2; the domain factor is at least 1, and so is the impact factor, the maximum of the
  five. The factors reported by \<open>analyze_problem\<close> are these same values.
\<close>

theorem impact_factor_bounds:
  "1 \<le> indicator_factor_of problem domain \<and> indicator_factor_of problem domain \<le> 9 / 5 \<and>
   1 \<le> question_factor_of problem \<and>
   0 \<le> length_factor_of problem \<and> length_factor_of problem \<le> 2 \<and>
   (length_factor_of problem < 1) = (length (py_split problem) < 50) \<and>
   0 \<le> sentence_complexity_factor_of problem \<and> sentence_complexity_factor_of problem \<le> 3 / 2 \<and>
   1 \<le> domain_factor_of problem domain \<and> 1 \<le> impact_factor_of problem domain \<and>
   a_length_factor (analyze_problem problem domain) = length_factor_of problem \<and>
   a_indicator_factor (analyze_problem problem domain) = indicator_factor_of problem domain \<and>
   a_question_factor (analyze_problem problem domain) = question_factor_of problem \<and>
   a_sentence_complexity_factor (analyze_problem problem domain) =
     sentence_complexity_factor_of problem"
proof -
  have q: "1 \<le> question_factor_of problem" by (simp add: question_factor_of_def)
  have i1: "1 \<le> indicator_factor_of problem domain"
    by (simp add: indicator_factor_of_def)
  have i2: "indicator_factor_of problem domain \<le> 9 / 5"
    unfolding indicator_factor_of_def by (rule min.cobounded2)
  have l1: "0 \<le> length_factor_of problem" by (simp add: length_factor_of_def)
  have l2: "length_factor_of problem \<le> 2"
    unfolding length_factor_of_def by (rule min.cobounded2)
  have l3: "(length_factor_of problem < 1) = (length (py_split problem) < 50)"
    by (simp add: length_factor_of_def min_less_iff_disj)
  have s1: "0 \<le> sentence_complexity_factor_of problem"
    by (simp add: sentence_complexity_factor_of_def words_per_sentence_of_def)
  have s2: "sentence_complexity_factor_of problem \<le> 3 / 2"
    unfolding sentence_complexity_factor_of_def by (rule min.cobounded2)
  have d: "1 \<le> domain_factor_of problem domain" by (simp add: domain_factor_of_def)
  have m: "1 \<le> impact_factor_of problem domain"
    using d by (simp add: impact_factor_of_def le_max_iff_disj)
  have a1: "a_length_factor (analyze_problem problem domain) = length_factor_of problem"
    by (simp only: analyze_problem_def Let_def length_factor_of_def analysis.select_convs)
  have a2: "a_indicator_factor (analyze_problem problem domain) = indicator_factor_of problem domain"
    by (simp only: analyze_problem_def Let_def indicator_factor_of_def analysis.select_convs)
  have a3: "a_question_factor (analyze_problem problem domain) = question_factor_of problem"
    by (simp only: analyze_problem_def Let_def question_factor_of_def analysis.select_convs)
  have a4: "a_sentence_complexity_factor (analyze_problem problem domain) =
      sentence_complexity_factor_of problem"
    by (simp only: analyze_problem_def Let_def sentence_complexity_factor_of_def
        words_per_sentence_of_def analysis.select_convs)
  show ?thesis by (intro conjI) (fact q i1 i2 l1 l2 l3 s1 s2 d m a1 a2 a3 a4)+
qed

text \<open>
  The problem \<open>What is 2+2?\<close> has three words in one sentence: its length factor is
  3/50 and its sentence-complexity factor 1/5, both below 1.
\<close>

theorem impact_factor_counterexample:
  "length_factor_of ''What is 2+2?'' = 3 / 50 \<and>
   sentence_complexity_factor_of ''What is 2+2?'' = 1 / 5 \<and>
   a_length_factor (analyze_problem ''What is 2+2?'' ''general'') < 1 \<and>
   a_sentence_complexity_factor (analyze_problem ''What is 2+2?'' ''general'') < 1"
  by code_simp

text \<open>
  C7 fails on the code: \<open>analyze_problem\<close> has no domain factor, neither as a field nor
  in the maximum its \<open>estimated_complexity\<close> is computed from. For a proof question in
  the domain \<open>math\<close> the estimate is 8 (base 6, domain factor 13/10) and the analysis
  reports 6.
\<close>

theorem analyze_problem_omits_domain_factor:
  "estimate_complexity ''Prove that the sum of two even numbers is even.'' ''math'' = 8 \<and>
   a_estimated_complexity
     (analyze_problem ''Prove that the sum of two even numbers is even.'' ''math'') = 6 \<and>
   domain_factor_of ''Prove that the sum of two even numbers is even.'' ''math'' = 13 / 10"
  by code_simp

text \<open>The two agree whenever the domain factor is not the largest factor alone.\<close>

lemma analyze_problem_agrees:
  assumes "domain_factor_of problem domain
     \<le> max (length_factor_of problem) (max (indicator_factor_of problem domain)
          (max (question_factor_of problem) (sentence_complexity_factor_of problem)))"
  shows "a_estimated_complexity (analyze_problem problem domain) = estimate_complexity problem domain"
proof -
  let ?m = "max (length_factor_of problem) (max (indicator_factor_of problem domain)
          (max (question_factor_of problem) (sentence_complexity_factor_of problem)))"
  have "impact_factor_of problem domain = max ?m (domain_factor_of problem domain)"
    unfolding impact_factor_of_def by (simp only: max.assoc)
  also have "\<dots> = ?m" using assms by (rule max.absorb1)
  finally have 1: "impact_factor_of problem domain = ?m" .
  have "a_estimated_complexity (analyze_problem problem domain) =
      max 3 (min (py_round (of_int (base_limit_of domain) * ?m)) 10)"
    by (simp only: analyze_problem_def Let_def length_factor_of_def indicator_factor_of_def
        question_factor_of_def sentence_complexity_factor_of_def words_per_sentence_of_def
        analysis.select_convs)
  also have "\<dots> = estimate_complexity problem domain"
    by (simp only: estimate_complexity_def Let_def 1)
  finally show ?thesis .
qed

section \<open>Properties of the format enforcer\<close>




lemma adherence_rate_eq:
  "adherence_rate (analyze_adherence text n) =
     (if split_into_steps text \<noteq> [] then
        of_nat (length (filter (\<lambda>count. int count \<le> n) (map step_count (split_into_steps text)))) /
          of_nat (length (split_into_steps text))
      else 1)"
  by (simp only: analyze_adherence_def Let_def adherence.select_convs)

text \<open>
  C4, as the code has it. The adherence rate lies between 0 and 1 and is 1 for a text of
  no steps. After enforcement with a limit that is not negative it is 1 whenever the
  enforced text splits back into the enforced steps.
\<close>

theorem adherence_rate_bounds:
  "0 \<le> adherence_rate (analyze_adherence text n) \<and>
   adherence_rate (analyze_adherence text n) \<le> 1 \<and>
   (split_into_steps text = [] \<longrightarrow> adherence_rate (analyze_adherence text n) = 1) \<and>
   (0 \<le> n \<and> split_into_steps (enforce_word_limit text n) = enforced_steps text n \<longrightarrow>
      adherence_rate (analyze_adherence (enforce_word_limit text n) n) = 1)"
proof (intro conjI impI)
  let ?steps = "split_into_steps text"
  let ?ok = "length (filter (\<lambda>count. int count \<le> n) (map step_count ?steps))"
  have le: "?ok \<le> length ?steps"
    using length_filter_le [of "\<lambda>count. int count \<le> n" "map step_count ?steps"] by simp
  show "0 \<le> adherence_rate (analyze_adherence text n)"
    unfolding adherence_rate_eq by simp
  show "adherence_rate (analyze_adherence text n) \<le> 1"
  proof (cases "?steps = []")
    case True
    then show ?thesis unfolding adherence_rate_eq by simp
  next
    case False
    then have "(of_nat ?ok :: rat) / of_nat (length ?steps) \<le> 1"
      using le by (simp add: divide_le_eq)
    then show ?thesis unfolding adherence_rate_eq using False by simp
  qed
next
  assume "split_into_steps text = []"
  then show "adherence_rate (analyze_adherence text n) = 1"
    unfolding adherence_rate_eq by simp
next
  assume a: "0 \<le> n \<and> split_into_steps (enforce_word_limit text n) = enforced_steps text n"
  let ?es = "enforced_steps text n"
  have "\<forall>c\<in>set (map step_count ?es). int c \<le> n"
    using a by (auto simp: enforced_steps_def step_count_enforce_step)
  then have "filter (\<lambda>count. int count \<le> n) (map step_count ?es) = map step_count ?es"
    by (simp only: filter_id_conv)
  then have "length (filter (\<lambda>count. int count \<le> n) (map step_count ?es)) = length ?es"
    by simp
  then show "adherence_rate (analyze_adherence (enforce_word_limit text n) n) = 1"
    unfolding adherence_rate_eq using a by simp
qed

text \<open>
  The claim that the rate is 1 after every enforcement fails. The text \<open>a Step b\<close>,
  newline, \<open>1:\<close> has no marker and is two steps, one per line; truncated to two words the
  first line ends in \<open>Step\<close>, which with the next line now matches \<open>Step\s+\d+:\<close>. The
  enforced text is then one step of three words, over the limit 2, and the rate is 0.
\<close>

theorem adherence_after_enforce_counterexample:
  "split_into_steps ''a Step b\<newline>1:'' = [''a Step b'', ''1:''] \<and>
   enforce_word_limit ''a Step b\<newline>1:'' 2 = ''a Step\<newline>1:'' \<and>
   split_into_steps ''a Step\<newline>1:'' = [''a Step\<newline>1:''] \<and>
   step_count ''a Step\<newline>1:'' = 3 \<and>
   adherence_rate (analyze_adherence (enforce_word_limit ''a Step b\<newline>1:'' 2) 2) = 0"
  by code_simp

text \<open>The theorem at the empty text, and at a text of two steps that splits back.\<close>

theorem adherence_rate_bounds_witness:
  "split_into_steps '''' = [] \<and> adherence_rate (analyze_adherence '''' 3) = 1 \<and>
   (0::int) \<le> 3 \<and>
   split_into_steps (enforce_word_limit ''1. The quick brown fox jumps\<newline>- over the lazy dog'' 3) =
     enforced_steps ''1. The quick brown fox jumps\<newline>- over the lazy dog'' 3 \<and>
   adherence_rate (analyze_adherence
     (enforce_word_limit ''1. The quick brown fox jumps\<newline>- over the lazy dog'' 3) 3) = 1"
proof -
  let ?t = "''1. The quick brown fox jumps\<newline>- over the lazy dog''"
  have 1: "split_into_steps '''' = []" by code_simp
  have 2: "adherence_rate (analyze_adherence '''' 3) = 1"
    using adherence_rate_bounds [of "''''" 3] 1 by blast
  have 3: "(0::int) \<le> 3" by simp
  have 4: "split_into_steps (enforce_word_limit ?t 3) = enforced_steps ?t 3" by code_simp
  have 5: "adherence_rate (analyze_adherence (enforce_word_limit ?t 3) 3) = 1"
    using adherence_rate_bounds [of ?t 3] 3 4 by blast
  show ?thesis by (intro conjI) (fact 1 2 3 4 5)+
qed

section \<open>Properties of the answer separator\<close>

text \<open>
  C3, as the code has it. When the response has no \<open>####\<close>, the reasoning is the whole
  response, stripped, and the answer is the fixed text \<open>No clear answer found\<close>. When it
  has one, the reasoning is the text before it and the answer the text after it, both
  stripped. When it has more, the reasoning is the stripped text before the first and the
  answer the stripped text between the first and the second. An occurrence that starts
  inside \<open>u\<close> lies in \<open>u\<close> followed by three \<open>#\<close>, so \<open>u\<close> followed by \<open>###\<close> without
  an occurrence says the one after \<open>u\<close> is the first.
\<close>

theorem extract_reasoning_answer_spec:
  "(\<not> sublist ''####'' r \<longrightarrow>
      extract_reasoning_answer r = (py_strip r, ''No clear answer found'')) \<and>
   (\<not> sublist ''####'' (u @ ''###'') \<and> \<not> sublist ''####'' v \<longrightarrow>
      extract_reasoning_answer (u @ ''####'' @ v) = (py_strip u, py_strip v)) \<and>
   (\<not> sublist ''####'' (u @ ''###'') \<and> \<not> sublist ''####'' (v @ ''###'') \<longrightarrow>
      extract_reasoning_answer (u @ ''####'' @ v @ ''####'' @ x) = (py_strip u, py_strip v))"
proof (intro conjI impI)
  assume "\<not> sublist ''####'' r"
  then show "extract_reasoning_answer r = (py_strip r, ''No clear answer found'')"
    by (simp add: extract_reasoning_answer_def split_marker_def split_marker_acc_absent)
next
  assume a: "\<not> sublist ''####'' (u @ ''###'') \<and> \<not> sublist ''####'' v"
  then have "split_marker (u @ ''####'' @ v) = [u, v]"
    using split_marker_acc_first [of u "[]" v] split_marker_acc_absent [of v "[]"]
    by (simp add: split_marker_def)
  then show "extract_reasoning_answer (u @ ''####'' @ v) = (py_strip u, py_strip v)"
    by (simp add: extract_reasoning_answer_def)
next
  assume a: "\<not> sublist ''####'' (u @ ''###'') \<and> \<not> sublist ''####'' (v @ ''###'')"
  then have "split_marker (u @ ''####'' @ v @ ''####'' @ x) = u # v # split_marker x"
    using split_marker_acc_first [of u "[]" "v @ ''####'' @ x"]
      split_marker_acc_first [of v "[]" x]
    by (simp add: split_marker_def)
  then show "extract_reasoning_answer (u @ ''####'' @ v @ ''####'' @ x) = (py_strip u, py_strip v)"
    by (simp add: extract_reasoning_answer_def)
qed

text \<open>
  The claim that everything after the first \<open>####\<close> becomes the answer fails on a
  response with two separators: the answer stops at the second.
\<close>

theorem extract_answer_counterexample:
  "extract_reasoning_answer ''a #### b #### c'' = (''a'', ''b'') \<and>
   snd (extract_reasoning_answer ''a #### b #### c'') \<noteq> py_strip '' b #### c''"
  by code_simp

text \<open>The theorem at a response with no separator, with one, and with two.\<close>

theorem extract_reasoning_answer_spec_witness:
  "extract_reasoning_answer ''no marker here'' = (''no marker here'', ''No clear answer found'') \<and>
   extract_reasoning_answer ''step one reasoning here #### 42'' = (''step one reasoning here'', ''42'') \<and>
   extract_reasoning_answer ''a #### b #### c'' = (''a'', ''b'')"
proof -
  have 1: "\<not> sublist ''####'' ''no marker here''" by code_simp
  have 2: "\<not> sublist ''####'' (''step one reasoning here '' @ ''###'') \<and> \<not> sublist ''####'' '' 42''"
    by code_simp
  have 3: "\<not> sublist ''####'' (''a '' @ ''###'') \<and> \<not> sublist ''####'' ('' b '' @ ''###'')"
    by code_simp
  have s1: "py_strip ''no marker here'' = ''no marker here''" by code_simp
  have s2: "py_strip ''step one reasoning here '' = ''step one reasoning here'' \<and> py_strip '' 42'' = ''42''"
    by code_simp
  have s3: "py_strip ''a '' = ''a'' \<and> py_strip '' b '' = ''b''" by code_simp
  show ?thesis
    using extract_reasoning_answer_spec [of "''no marker here''" "''step one reasoning here ''" "'' 42''" "'' c''"]
      extract_reasoning_answer_spec [of "''no marker here''" "''a ''" "'' b ''" "'' c''"]
      1 2 3 s1 s2 s3
    by simp
qed

section \<open>Properties of the approach selector\<close>

text \<open>
  C5. \<open>select_approach\<close> decides in order, the first rule that applies winning. With the
  preferences of the domain (those of \<open>default\<close> for a domain without an entry) and the
  complexity score (the estimate, when none is passed): a score above the complexity
  threshold gives \<open>CoT\<close>, whatever the analytics service would report; otherwise a
  recorded \<open>CoD\<close> accuracy below the accuracy threshold gives \<open>CoT\<close>; otherwise, with no
  recorded accuracy or one that reaches the threshold, the result is \<open>CoD\<close> with the fixed
  text \<open>Default to Chain-of-Draft for efficiency\<close>.
\<close>

theorem select_approach_decision:
  assumes "lookup_preferences table domain = Inr prefs"
    and "score = (case complexity_score of None \<Rightarrow> estimate_complexity problem domain | Some c \<Rightarrow> c)"
  shows
    "(complexity_threshold prefs < score \<longrightarrow>
        select_approach table get_performance problem domain complexity_score =
          Inr (''CoT'', Complexity_exceeds score (complexity_threshold prefs))) \<and>
     (score \<le> complexity_threshold prefs \<and>
      cod_accuracy_of (get_performance domain) = Some a \<and> a < accuracy_threshold prefs \<longrightarrow>
        select_approach table get_performance problem domain complexity_score =
          Inr (''CoT'', Accuracy_below a (accuracy_threshold prefs))) \<and>
     (score \<le> complexity_threshold prefs \<and>
      (cod_accuracy_of (get_performance domain) = None \<or>
       cod_accuracy_of (get_performance domain) = Some a \<and> accuracy_threshold prefs \<le> a) \<longrightarrow>
        select_approach table get_performance problem domain complexity_score =
          Inr (''CoD'', Literal ''Default to Chain-of-Draft for efficiency''))"
  using assms by (auto simp: select_approach_def Let_def)

text \<open>
  The three rules on the initial preferences for \<open>math\<close> (thresholds 7 and 0.85): score 8
  with a perfect history, score 5 with an accuracy of one half, and the lollipop problem,
  estimated at 7, with no history.
\<close>

theorem select_approach_decision_witness:
  "select_approach default_preferences (\<lambda>d. [\<lparr>p_domain = d, p_approach = ''CoD'', p_avg_tokens = 40,
       p_avg_time_ms = 900, p_accuracy = Some 1, p_count = 12\<rparr>])
     ''Integrate x squared'' ''math'' (Some 8) = Inr (''CoT'', Complexity_exceeds 8 7) \<and>
   select_approach default_preferences (\<lambda>d. [\<lparr>p_domain = d, p_approach = ''CoD'', p_avg_tokens = 40,
       p_avg_time_ms = 900, p_accuracy = Some (1 / 2), p_count = 12\<rparr>])
     ''Integrate x squared'' ''math'' (Some 5) = Inr (''CoT'', Accuracy_below (1 / 2) (17 / 20)) \<and>
   select_approach default_preferences (\<lambda>d. [])
     ''Jason had 20 lollipops. He gave Denny some. Now he has 12. How many did he give?'' ''math'' None =
     Inr (''CoD'', Literal ''Default to Chain-of-Draft for efficiency'')"
proof -
  let ?good = "\<lambda>d. [\<lparr>p_domain = d, p_approach = ''CoD'', p_avg_tokens = 40,
       p_avg_time_ms = 900, p_accuracy = Some (1::rat), p_count = 12\<rparr>]"
  let ?bad = "\<lambda>d. [\<lparr>p_domain = d, p_approach = ''CoD'', p_avg_tokens = 40,
       p_avg_time_ms = 900, p_accuracy = Some (1 / 2 :: rat), p_count = 12\<rparr>]"
  let ?none = "\<lambda>d::string. [] :: performance list"
  let ?p = "''Jason had 20 lollipops. He gave Denny some. Now he has 12. How many did he give?''"
  let ?prefs = "\<lparr>complexity_threshold = 7, accuracy_threshold = 17 / 20\<rparr>"
  have l: "lookup_preferences default_preferences ''math'' = Inr ?prefs"
    by code_simp
  have est: "estimate_complexity ?p ''math'' = 7" by code_simp
  have s1: "(8::int) = (case Some 8 of None \<Rightarrow> estimate_complexity ''Integrate x squared'' ''math'' | Some c \<Rightarrow> c)"
    by simp
  have s2: "(5::int) = (case Some 5 of None \<Rightarrow> estimate_complexity ''Integrate x squared'' ''math'' | Some c \<Rightarrow> c)"
    by simp
  have s3: "(7::int) = (case None of None \<Rightarrow> estimate_complexity ?p ''math'' | Some c \<Rightarrow> c)"
    by (simp add: est)
  have a2: "cod_accuracy_of (?bad ''math'') = Some (1 / 2)" by (simp add: cod_accuracy_of_def)
  have a3: "cod_accuracy_of (?none ''math'') = None" by (simp add: cod_accuracy_of_def)
  have 1: "select_approach default_preferences ?good ''Integrate x squared'' ''math'' (Some 8) =
      Inr (''CoT'', Complexity_exceeds 8 7)"
    using select_approach_decision [OF l s1, of ?good 0] by simp
  have 2: "select_approach default_preferences ?bad ''Integrate x squared'' ''math'' (Some 5) =
      Inr (''CoT'', Accuracy_below (1 / 2) (17 / 20))"
    using select_approach_decision [OF l s2, of ?bad "1 / 2"] a2 by simp
  have 3: "select_approach default_preferences ?none ?p ''math'' None =
      Inr (''CoD'', Literal ''Default to Chain-of-Draft for efficiency'')"
    using select_approach_decision [OF l s3, of ?none 0] a3 by simp
  show ?thesis by (intro conjI) (fact 1 2 3)+
qed

section \<open>Properties of the client\<close>

text \<open>With adaptive limits on, the approach \<open>CoD\<close> takes the complexity as its word limit
  whatever \<open>max_words_per_step\<close> holds.\<close>

lemma word_limit_of_adaptive:
  "adaptive_word_limit (merge_settings s kw) \<Longrightarrow>
   word_limit_of (merge_settings s kw) ''CoD'' complexity = Some complexity"
  by (simp add: word_limit_of_def)

text \<open>
  C8 fails on the code: a \<open>max_words_per_step\<close> passed by the caller does not win. The
  test on \<open>adaptive_word_limit\<close> (on by default) comes first, so for the approach \<open>CoD\<close>
  the limit is the complexity score. With \<open>max_words_per_step=3\<close> passed for the problem
  \<open>What is 2+2?\<close>, whose complexity is 6, the word limit of the result is 6.
\<close>

theorem word_limit_override_ignored:
  "estimate_complexity ''What is 2+2?'' ''general'' = 6 \<and>
   word_limit_of
     (merge_settings default_settings (no_kwargs\<lparr>kw_max_words_per_step := Some (Some 3)\<rparr>))
     ''CoD'' 6 = Some 6 \<and>
   map_sum id (\<lambda>r. (res_approach r, res_word_limit r))
     (fst (solve_with_reasoning
        \<lparr> preferences = default_preferences,
          get_performance_by_domain = (\<lambda>d. []),
          get_examples = (\<lambda>d a. []),
          llm_chat = (\<lambda>req. Inr \<lparr>content = ''2+2=4 #### 4'', input_tokens = 30, output_tokens = 5\<rparr>),
          start_time = 0, end_time = 1 \<rparr>
        default_settings ''What is 2+2?'' ''general''
        (no_kwargs\<lparr>kw_max_words_per_step := Some (Some 3)\<rparr>)
        \<lparr>llm_calls = [], recorded = []\<rparr>)) = Inr (''CoD'', Some 6)"
  by code_simp

text \<open>
  C9. \<open>completions\<close> without a prompt, and \<open>chat\<close> and \<open>messages\<close> without messages or
  with no user message among them, return the \<open>ValueError\<close> at once and leave the world
  as it was: no request has gone to the language model and no event has been recorded.
\<close>

theorem caller_contract_errors:
  "completions e s m None kw w = (Inl (ValueError ''Prompt is required''), w) \<and>
   completions e s m (Some []) kw w = (Inl (ValueError ''Prompt is required''), w) \<and>
   chat e s m None kw w = (Inl (ValueError ''Messages are required''), w) \<and>
   chat e s m (Some []) kw w = (Inl (ValueError ''Messages are required''), w) \<and>
   messages e s m None kw w = (Inl (ValueError ''Messages are required''), w) \<and>
   messages e s m (Some []) kw w = (Inl (ValueError ''Messages are required''), w) \<and>
   (msgs \<noteq> [] \<and> \<not> list_ex (\<lambda>x. role x = ''user'') msgs \<longrightarrow>
      chat e s m (Some msgs) kw w =
        (Inl (ValueError ''No user message found in the provided messages''), w) \<and>
      messages e s m (Some msgs) kw w =
        (Inl (ValueError ''No user message found in the provided messages''), w))"
proof -
  have nouser: "last_user_msg_of msgs = []" if "\<not> list_ex (\<lambda>x. role x = ''user'') msgs"
  proof -
    have "filter (\<lambda>x. role x = ''user'') (rev msgs) = []"
      using that by (simp add: list_ex_iff filter_empty_conv)
    then show ?thesis by (simp add: last_user_msg_of_def)
  qed
  show ?thesis
    by (simp add: completions_def chat_def messages_def chat_like_def nouser)
qed

text \<open>Two messages, neither from the user.\<close>

theorem caller_contract_errors_witness:
  "chat
     \<lparr> preferences = default_preferences,
       get_performance_by_domain = (\<lambda>d. []),
       get_examples = (\<lambda>d a. []),
       llm_chat = (\<lambda>req. Inr \<lparr>content = ''2+2=4 #### 4'', input_tokens = 30, output_tokens = 5\<rparr>),
       start_time = 0, end_time = 1 \<rparr>
     default_settings (Some ''some-model'')
     (Some [\<lparr>role = ''system'', msg_content = ''Be brief.''\<rparr>,
            \<lparr>role = ''assistant'', msg_content = ''Hello''\<rparr>])
     no_kwargs \<lparr>llm_calls = [], recorded = []\<rparr> =
     (Inl (ValueError ''No user message found in the provided messages''),
      \<lparr>llm_calls = [], recorded = []\<rparr>) \<and>
   messages
     \<lparr> preferences = default_preferences,
       get_performance_by_domain = (\<lambda>d. []),
       get_examples = (\<lambda>d a. []),
       llm_chat = (\<lambda>req. Inr \<lparr>content = ''2+2=4 #### 4'', input_tokens = 30, output_tokens = 5\<rparr>),
       start_time = 0, end_time = 1 \<rparr>
     default_settings (Some ''some-model'')
     (Some [\<lparr>role = ''system'', msg_content = ''Be brief.''\<rparr>,
            \<lparr>role = ''assistant'', msg_content = ''Hello''\<rparr>])
     no_kwargs \<lparr>llm_calls = [], recorded = []\<rparr> =
     (Inl (ValueError ''No user message found in the provided messages''),
      \<lparr>llm_calls = [], recorded = []\<rparr>)"
proof -
  let ?msgs = "[\<lparr>role = ''system'', msg_content = ''Be brief.''\<rparr>,
                \<lparr>role = ''assistant'', msg_content = ''Hello''\<rparr>]"
  have h: "?msgs \<noteq> [] \<and> \<not> list_ex (\<lambda>x. role x = ''user'') ?msgs" by simp
  show ?thesis
    using caller_contract_errors [where msgs = ?msgs and m = "Some ''some-model''"
        and s = default_settings and kw = no_kwargs
        and w = "\<lparr>llm_calls = [], recorded = []\<rparr>"] h
    by blast
qed

lemma after_response_Inr:
  assumes "after_response e ls problem domain c a r wl full w1 = (Inr res, w')"
  shows "token_count res = length (py_split full) \<and> llm_calls w' = llm_calls w1 \<and>
     (if track_analytics ls
      then \<exists>ev. recorded w' = recorded w1 @ [ev] \<and> ev_tokens_used ev = length (py_split full)
      else recorded w' = recorded w1)"
proof (cases "apply_enforcement ls a (fst (extract_reasoning_answer full)) wl")
  case (Inl err)
  then show ?thesis using assms by (simp add: after_response_def)
next
  case (Inr p)
  obtain reasoning adh where p: "p = (reasoning, adh)" by (cases p)
  show ?thesis
  proof (cases "track_analytics ls")
    case True
    then show ?thesis using assms Inr p by (auto simp: after_response_def Let_def)
  next
    case False
    then show ?thesis using assms Inr p by (auto simp: after_response_def Let_def)
  qed
qed

lemma resolve_approach_llm:
  "resolve_approach (e\<lparr>llm_chat := F\<rparr>) ls problem domain c = resolve_approach e ls problem domain c"
  by (simp add: resolve_approach_def split: option.splits)

lemma after_response_llm:
  "after_response (e\<lparr>llm_chat := F\<rparr>) ls problem domain c a r wl full w1 =
   after_response e ls problem domain c a r wl full w1"
  by (simp add: after_response_def Let_def split: sum.splits prod.splits)

text \<open>
  C10. When \<open>solve_with_reasoning\<close> returns a result, one request has gone to the language
  model, and the \<open>token_count\<close> of the result is the number of whitespace-separated words
  of the whole text of its response; with analytics on, one event has been recorded and
  its \<open>tokens_used\<close> is that same number. The usage counts of the response play no part:
  a language model that reports any other counts gives the same result and the same
  effects.
\<close>

theorem token_count_is_word_count:
  "(solve_with_reasoning e s problem domain kw w = (Inr res, w') \<longrightarrow>
      (\<exists>req resp. llm_chat e req = Inr resp \<and> llm_calls w' = llm_calls w @ [req] \<and>
         token_count res = length (py_split (content resp)) \<and>
         (if track_analytics (merge_settings s kw)
          then \<exists>ev. recorded w' = recorded w @ [ev] \<and>
                 ev_tokens_used ev = length (py_split (content resp))
          else recorded w' = recorded w))) \<and>
   solve_with_reasoning
     (e\<lparr>llm_chat := \<lambda>req. map_sum id (\<lambda>resp. resp\<lparr>input_tokens := n_in req resp,
                                                    output_tokens := n_out req resp\<rparr>)
                                 (llm_chat e req)\<rparr>)
     s problem domain kw w =
   solve_with_reasoning e s problem domain kw w"
proof (intro conjI impI)
  let ?ls = "merge_settings s kw"
  let ?c = "estimate_complexity problem domain"
  assume a: "solve_with_reasoning e s problem domain kw w = (Inr res, w')"
  show "\<exists>req resp. llm_chat e req = Inr resp \<and> llm_calls w' = llm_calls w @ [req] \<and>
         token_count res = length (py_split (content resp)) \<and>
         (if track_analytics ?ls
          then \<exists>ev. recorded w' = recorded w @ [ev] \<and>
                 ev_tokens_used ev = length (py_split (content resp))
          else recorded w' = recorded w)"
  proof (cases "resolve_approach e ?ls problem domain ?c")
    case (Inl err)
    then show ?thesis using a by (simp add: solve_with_reasoning_def Let_def)
  next
    case (Inr ar)
    obtain an rs where ar: "ar = (an, rs)" by (cases ar)
    let ?req = "request_of ?ls problem (get_examples e domain an)"
    let ?w1 = "w\<lparr>llm_calls := llm_calls w @ [?req]\<rparr>"
    show ?thesis
    proof (cases "llm_chat e ?req")
      case (Inl err)
      then show ?thesis using a Inr ar by (simp add: solve_with_reasoning_def Let_def)
    next
      case resp: (Inr resp)
      have "after_response e ?ls problem domain ?c an rs (word_limit_of ?ls an ?c)
          (content resp) ?w1 = (Inr res, w')"
        using a Inr ar resp by (simp add: solve_with_reasoning_def Let_def)
      then have "token_count res = length (py_split (content resp)) \<and>
          llm_calls w' = llm_calls ?w1 \<and>
          (if track_analytics ?ls
           then \<exists>ev. recorded w' = recorded ?w1 @ [ev] \<and>
                  ev_tokens_used ev = length (py_split (content resp))
           else recorded w' = recorded ?w1)"
        by (rule after_response_Inr)
      then show ?thesis using resp by auto
    qed
  qed
next
  let ?F = "\<lambda>req. map_sum id (\<lambda>resp. resp\<lparr>input_tokens := n_in req resp,
                                              output_tokens := n_out req resp\<rparr>)
                           (llm_chat e req)"
  show "solve_with_reasoning (e\<lparr>llm_chat := ?F\<rparr>) s problem domain kw w =
      solve_with_reasoning e s problem domain kw w"
    by (auto simp: solve_with_reasoning_def Let_def resolve_approach_llm after_response_llm
        split: sum.splits)
qed

text \<open>A run with the initial settings: the response \<open>2+2=4 #### 4\<close> has three words.\<close>

theorem token_count_is_word_count_witness:
  "fst (solve_with_reasoning
        \<lparr> preferences = default_preferences,
          get_performance_by_domain = (\<lambda>d. []),
          get_examples = (\<lambda>d a. []),
          llm_chat = (\<lambda>req. Inr \<lparr>content = ''2+2=4 #### 4'', input_tokens = 30, output_tokens = 5\<rparr>),
          start_time = 0, end_time = 1 \<rparr>
        default_settings ''What is 2+2?'' ''general'' no_kwargs
        \<lparr>llm_calls = [], recorded = []\<rparr>) =
     Inr \<lparr> reasoning_steps = ''2+2=4'', final_answer = ''4'', token_count = 3,
           res_approach = ''CoD'', res_complexity = 6, res_word_limit = Some 6 \<rparr> \<and>
   length (py_split ''2+2=4 #### 4'') = 3 \<and>
   (\<exists>ev. recorded (snd (solve_with_reasoning
        \<lparr> preferences = default_preferences,
          get_performance_by_domain = (\<lambda>d. []),
          get_examples = (\<lambda>d a. []),
          llm_chat = (\<lambda>req. Inr \<lparr>content = ''2+2=4 #### 4'', input_tokens = 30, output_tokens = 5\<rparr>),
          start_time = 0, end_time = 1 \<rparr>
        default_settings ''What is 2+2?'' ''general'' no_kwargs
        \<lparr>llm_calls = [], recorded = []\<rparr>)) = [ev] \<and>
      ev_tokens_used ev = length (py_split ''2+2=4 #### 4''))"
proof -
  let ?E = "\<lparr> preferences = default_preferences,
          get_performance_by_domain = (\<lambda>d. []),
          get_examples = (\<lambda>d a. []),
          llm_chat = (\<lambda>req. Inr \<lparr>content = ''2+2=4 #### 4'', input_tokens = 30, output_tokens = 5\<rparr>),
          start_time = 0, end_time = 1 \<rparr>"
  let ?W = "\<lparr>llm_calls = [], recorded = []\<rparr>"
  let ?R = "\<lparr> reasoning_steps = ''2+2=4'', final_answer = ''4'', token_count = 3,
           res_approach = ''CoD'', res_complexity = 6, res_word_limit = Some 6 \<rparr>"
  let ?run = "solve_with_reasoning ?E default_settings ''What is 2+2?'' ''general'' no_kwargs ?W"
  have r: "fst ?run = Inr ?R" by code_simp
  have run: "?run = (Inr ?R, snd ?run)" using r by (metis prod.collapse)
  have t: "track_analytics (merge_settings default_settings no_kwargs)" by code_simp
  have n: "length (py_split ''2+2=4 #### 4'') = 3" by code_simp
  note inst = token_count_is_word_count [of ?E default_settings "''What is 2+2?''" "''general''"
      no_kwargs ?W ?R "snd ?run"]
  have "?run = (Inr ?R, snd ?run) \<longrightarrow>
      (\<exists>req resp. llm_chat ?E req = Inr resp \<and>
         llm_calls (snd ?run) = llm_calls ?W @ [req] \<and>
         token_count ?R = length (py_split (content resp)) \<and>
         (if track_analytics (merge_settings default_settings no_kwargs)
          then \<exists>ev. recorded (snd ?run) = recorded ?W @ [ev] \<and>
                 ev_tokens_used ev = length (py_split (content resp))
          else recorded (snd ?run) = recorded ?W))"
    by (rule conjunct1 [OF inst])
  then have "\<exists>req resp. llm_chat ?E req = Inr resp \<and>
         llm_calls (snd ?run) = llm_calls ?W @ [req] \<and>
         token_count ?R = length (py_split (content resp)) \<and>
         (if track_analytics (merge_settings default_settings no_kwargs)
          then \<exists>ev. recorded (snd ?run) = recorded ?W @ [ev] \<and>
                 ev_tokens_used ev = length (py_split (content resp))
          else recorded (snd ?run) = recorded ?W)"
    using run by (rule mp)
  then obtain req resp where h: "llm_chat ?E req = Inr resp"
      "if track_analytics (merge_settings default_settings no_kwargs)
       then \<exists>ev. recorded (snd ?run) = recorded ?W @ [ev] \<and>
              ev_tokens_used ev = length (py_split (content resp))
       else recorded (snd ?run) = recorded ?W"
    by blast
  have h3: "\<exists>ev. recorded (snd ?run) = recorded ?W @ [ev] \<and>
         ev_tokens_used ev = length (py_split (content resp))"
    using h(2) t by (simp only: if_True)
  have c: "content resp = ''2+2=4 #### 4''" using h(1) by auto
  have 3: "\<exists>ev. recorded (snd ?run) = [ev] \<and>
      ev_tokens_used ev = length (py_split ''2+2=4 #### 4'')"
    using h3 unfolding c by simp
  show ?thesis using r n 3 by (intro conjI)
qed

end
